theory Spec2Isabelle
  imports Main "HOL-Library.Word" "HOL-Library.Log_Nat"
begin

section \<open>Binary floating point\<close>

text \<open>
  The controller computes on C++ \<^verbatim>\<open>float\<close> (IEEE 754 binary32) and, inside one lambda,
  on \<^verbatim>\<open>double\<close> (binary64).  A value is a sign, a significand and the exponent of its last
  place, \<open>(-1)^s * m * 2^e\<close>, or an infinity, or NaN.  Results of operations are always in
  the canonical form of the format (the significand has exactly \<open>prec\<close> bits, or the
  exponent is \<open>emin\<close>), so that equal numbers are equal terms, up to the sign of zero.
  Every operation computes the exact result and rounds it to nearest, ties to even.
\<close>

datatype fp = Finite bool nat int | Infinity bool | NaN

record format =
  prec :: nat
  emin :: int
  emax :: int

definition binary32 :: format where
  "binary32 = \<lparr>prec = 24, emin = - 149, emax = 104\<rparr>"

definition binary64 :: format where
  "binary64 = \<lparr>prec = 53, emin = - 1074, emax = 971\<rparr>"

text \<open>\<open>rne m k\<close> is \<open>m / 2^k\<close> rounded to the nearest natural number, ties to even.\<close>

definition rne :: "nat \<Rightarrow> nat \<Rightarrow> nat" where
  "rne m k = (let d = m div 2 ^ k; r = m mod 2 ^ k in
     if 2 ^ k < 2 * r \<or> (2 * r = 2 ^ k \<and> odd d) then d + 1 else d)"

text \<open>\<open>fp_round F s m e\<close> rounds the exact number \<open>(-1)^s * m * 2^e\<close> into the format.\<close>

definition fp_round :: "format \<Rightarrow> bool \<Rightarrow> nat \<Rightarrow> int \<Rightarrow> fp" where
  "fp_round F s m e =
    (if m = 0 then Finite s 0 (emin F)
     else let e' = max (e + int (floorlog 2 m) - int (prec F)) (emin F) in
       if e' \<le> e then
         (if emax F < e' then Infinity s else Finite s (m * 2 ^ nat (e - e')) e')
       else let d = rne m (nat (e' - e)) in
         if d = 2 ^ prec F then
           (if emax F < e' + 1 then Infinity s else Finite s (2 ^ (prec F - 1)) (e' + 1))
         else (if emax F < e' then Infinity s else Finite s d e'))"

definition with_sign :: "bool \<Rightarrow> nat \<Rightarrow> int" where
  "with_sign s m = (if s then - int m else int m)"

fun fp_add :: "format \<Rightarrow> fp \<Rightarrow> fp \<Rightarrow> fp" where
  "fp_add F NaN y = NaN"
| "fp_add F x NaN = NaN"
| "fp_add F (Infinity s) (Infinity t) = (if s = t then Infinity s else NaN)"
| "fp_add F (Infinity s) (Finite t n f) = Infinity s"
| "fp_add F (Finite s m e) (Infinity t) = Infinity t"
| "fp_add F (Finite s m e) (Finite t n f) =
     (let g = min e f;
          c = with_sign s (m * 2 ^ nat (e - g)) + with_sign t (n * 2 ^ nat (f - g))
      in if c = 0 then Finite (s \<and> t) 0 (emin F)
         else fp_round F (c < 0) (nat \<bar>c\<bar>) g)"

fun fp_neg :: "fp \<Rightarrow> fp" where
  "fp_neg (Finite s m e) = Finite (\<not> s) m e"
| "fp_neg (Infinity s) = Infinity (\<not> s)"
| "fp_neg NaN = NaN"

definition fp_sub :: "format \<Rightarrow> fp \<Rightarrow> fp \<Rightarrow> fp" where
  "fp_sub F x y = fp_add F x (fp_neg y)"

fun fp_mul :: "format \<Rightarrow> fp \<Rightarrow> fp \<Rightarrow> fp" where
  "fp_mul F NaN y = NaN"
| "fp_mul F x NaN = NaN"
| "fp_mul F (Infinity s) (Infinity t) = Infinity (s \<noteq> t)"
| "fp_mul F (Infinity s) (Finite t n f) = (if n = 0 then NaN else Infinity (s \<noteq> t))"
| "fp_mul F (Finite s m e) (Infinity t) = (if m = 0 then NaN else Infinity (s \<noteq> t))"
| "fp_mul F (Finite s m e) (Finite t n f) = fp_round F (s \<noteq> t) (m * n) (e + f)"

text \<open>
  Division and square root compute two bits more than the format keeps and a sticky bit
  for the rest, which is enough for the rounding to be that of the exact result.
\<close>

fun fp_div :: "format \<Rightarrow> fp \<Rightarrow> fp \<Rightarrow> fp" where
  "fp_div F NaN y = NaN"
| "fp_div F x NaN = NaN"
| "fp_div F (Infinity s) (Infinity t) = NaN"
| "fp_div F (Infinity s) (Finite t n f) = Infinity (s \<noteq> t)"
| "fp_div F (Finite s m e) (Infinity t) = Finite (s \<noteq> t) 0 (emin F)"
| "fp_div F (Finite s m e) (Finite t n f) =
     (if n = 0 then (if m = 0 then NaN else Infinity (s \<noteq> t))
      else let k = prec F + 2 + floorlog 2 n;
               d = (m * 2 ^ k) div n;
               r = (m * 2 ^ k) mod n
           in fp_round F (s \<noteq> t) (2 * d + (if r = 0 then 0 else 1)) (e - f - int k - 1))"

fun isqrt :: "nat \<Rightarrow> nat" where
  "isqrt n = (if n < 2 then n
              else let r = 2 * isqrt (n div 4) in
                   if (r + 1) * (r + 1) \<le> n then r + 1 else r)"

declare isqrt.simps [simp del]

fun fp_sqrt :: "format \<Rightarrow> fp \<Rightarrow> fp" where
  "fp_sqrt F NaN = NaN"
| "fp_sqrt F (Infinity s) = (if s then NaN else Infinity s)"
| "fp_sqrt F (Finite s m e) =
     (if m = 0 then Finite s 0 (emin F)
      else if s then NaN
      else let k = 2 * (prec F + 2) + nat (e mod 2);
               r = isqrt (m * 2 ^ k)
           in fp_round F False (2 * r + (if r * r = m * 2 ^ k then 0 else 1))
                ((e - int k) div 2 - 1))"

text \<open>The comparisons \<^verbatim>\<open>==\<close> and \<^verbatim>\<open><\<close> of C++: NaN compares false, the two zeros are equal.\<close>

fun fp_eq :: "fp \<Rightarrow> fp \<Rightarrow> bool" where
  "fp_eq (Finite s m e) (Finite t n f) = ((m = 0 \<and> n = 0) \<or> (s = t \<and> m = n \<and> e = f))"
| "fp_eq (Infinity s) (Infinity t) = (s = t)"
| "fp_eq x y = False"

fun fp_lt :: "fp \<Rightarrow> fp \<Rightarrow> bool" where
  "fp_lt (Finite s m e) (Finite t n f) =
     (let g = min e f in with_sign s (m * 2 ^ nat (e - g)) < with_sign t (n * 2 ^ nat (f - g)))"
| "fp_lt (Infinity s) (Infinity t) = (s \<and> \<not> t)"
| "fp_lt (Infinity s) (Finite t n f) = s"
| "fp_lt (Finite s m e) (Infinity t) = (\<not> t)"
| "fp_lt x y = False"

text \<open>The rational number a finite value stands for.\<close>

fun fp_val :: "fp \<Rightarrow> rat option" where
  "fp_val (Finite s m e) =
     Some (of_int (with_sign s m) * (if 0 \<le> e then 2 ^ nat e else 1 / 2 ^ nat (- e)))"
| "fp_val x = None"

fun fp_is_finite :: "fp \<Rightarrow> bool" where
  "fp_is_finite (Finite s m e) = True"
| "fp_is_finite x = False"

text \<open>The values of a format: the significand has at most \<open>prec\<close> bits, the exponent is in
  range, and the significand has exactly \<open>prec\<close> bits unless the exponent is the least one.\<close>

definition fp_in_format :: "format \<Rightarrow> fp \<Rightarrow> bool" where
  "fp_in_format F x =
     (case x of
        Finite s m e \<Rightarrow>
          m < 2 ^ prec F \<and> emin F \<le> e \<and> e \<le> emax F \<and> (2 ^ (prec F - 1) \<le> m \<or> e = emin F)
      | _ \<Rightarrow> True)"

text \<open>
  The real number a finite value stands for (zero for an infinity and for NaN), and the
  relation used to follow a computation: the value \<open>f\<close> is finite and stands for the real
  number \<open>x\<close>, of magnitude at most \<open>K\<close>, up to an error of at most \<open>e\<close>.
\<close>

definition fp_real :: "fp \<Rightarrow> real" where
  "fp_real x = (case fp_val x of Some r \<Rightarrow> of_rat r | None \<Rightarrow> 0)"


text \<open>Conversion between formats, and from an unsigned integer.\<close>

fun fp_convert :: "format \<Rightarrow> fp \<Rightarrow> fp" where
  "fp_convert F (Finite s m e) = fp_round F s m e"
| "fp_convert F x = x"

definition fp_of_nat :: "format \<Rightarrow> nat \<Rightarrow> fp" where
  "fp_of_nat F n = fp_round F False n 0"

type_synonym cfloat = fp
type_synonym cdouble = fp

abbreviation fadd :: "cfloat \<Rightarrow> cfloat \<Rightarrow> cfloat" where "fadd \<equiv> fp_add binary32"
abbreviation fsub :: "cfloat \<Rightarrow> cfloat \<Rightarrow> cfloat" where "fsub \<equiv> fp_sub binary32"
abbreviation fmul :: "cfloat \<Rightarrow> cfloat \<Rightarrow> cfloat" where "fmul \<equiv> fp_mul binary32"
abbreviation fdiv :: "cfloat \<Rightarrow> cfloat \<Rightarrow> cfloat" where "fdiv \<equiv> fp_div binary32"
abbreviation fsqrt :: "cfloat \<Rightarrow> cfloat" where "fsqrt \<equiv> fp_sqrt binary32"
abbreviation dadd :: "cdouble \<Rightarrow> cdouble \<Rightarrow> cdouble" where "dadd \<equiv> fp_add binary64"
abbreviation dmul :: "cdouble \<Rightarrow> cdouble \<Rightarrow> cdouble" where "dmul \<equiv> fp_mul binary64"
abbreviation float_of_double :: "cdouble \<Rightarrow> cfloat" where "float_of_double \<equiv> fp_convert binary32"
abbreviation double_of_float :: "cfloat \<Rightarrow> cdouble" where "double_of_float \<equiv> fp_convert binary64"

text \<open>The literals of the source: \<^verbatim>\<open>0.0f\<close>, \<^verbatim>\<open>1.0f\<close>, \<^verbatim>\<open>-1.0\<close>, \<^verbatim>\<open>1000.0f\<close>, \<^verbatim>\<open>20.0\<close>, \<^verbatim>\<open>0.5\<close>, and
  the \<^verbatim>\<open>double\<close> \<^verbatim>\<open>0.25\<close>.\<close>

definition f_zero :: cfloat where "f_zero = Finite False 0 (- 149)"
definition f_one :: cfloat where "f_one = Finite False 8388608 (- 23)"
definition f_minus_one :: cfloat where "f_minus_one = Finite True 8388608 (- 23)"
definition f_thousand :: cfloat where "f_thousand = Finite False 16384000 (- 14)"
definition f_twenty :: cfloat where "f_twenty = Finite False 10485760 (- 19)"
definition f_half :: cfloat where "f_half = Finite False 8388608 (- 24)"
definition d_zero :: cdouble where "d_zero = Finite False 0 (- 1074)"
definition d_one :: cdouble where "d_one = Finite False 4503599627370496 (- 52)"
definition d_quarter :: cdouble where "d_quarter = Finite False 4503599627370496 (- 54)"

section \<open>Messages\<close>

text \<open>
  The message types come from \<^verbatim>\<open>unitree_a1_legged_msgs\<close>, \<^verbatim>\<open>geometry_msgs\<close> and
  \<^verbatim>\<open>std_msgs\<close>; only the fields the controller reads or writes are kept.  Joint angles
  \<open>q\<close> and velocities \<open>dq\<close> and the gains are \<^verbatim>\<open>float32\<close>, foot forces are \<^verbatim>\<open>int16\<close>, the
  fields of \<^verbatim>\<open>geometry_msgs\<close> are \<^verbatim>\<open>float64\<close>.  The four legs and the three joints of a
  leg are the same in every message, so one record serves each.
\<close>

record 'a Quadruped =
  front_right :: 'a
  front_left :: 'a
  rear_right :: 'a
  rear_left :: 'a

record 'a Leg =
  hip :: 'a
  thigh :: 'a
  calf :: 'a

record MotorState =
  q :: cfloat
  dq :: cfloat

type_synonym LegState = "MotorState Leg"
type_synonym QuadrupedState = "LegState Quadruped"
type_synonym FootForceState = "16 word Quadruped"

record Quaternion =
  quat_x :: cdouble
  quat_y :: cdouble
  quat_z :: cdouble
  quat_w :: cdouble

record Imu =
  orientation :: Quaternion

record LowState =
  motor_state :: QuadrupedState
  imu :: Imu
  foot_force :: FootForceState

record Vector3 =
  vec_x :: cdouble
  vec_y :: cdouble
  vec_z :: cdouble

record Twist =
  linear :: Vector3
  angular :: Vector3

record TwistStamped =
  twist :: Twist

record CommonCmd =
  mode :: "8 word"
  kp :: cfloat
  kd :: cfloat

text \<open>In a command each joint carries its target angle, the field \<open>q\<close> of the source.\<close>

record LowCmd =
  motor_cmd :: "cfloat Leg Quadruped"
  common :: CommonCmd

section \<open>The controller\<close>

definition FL :: nat where "FL = 0"
definition FR :: nat where "FR = 1"
definition RL :: nat where "RL = 2"
definition RR :: nat where "RR = 3"
definition PMSM_SERVO_MODE :: "8 word" where "PMSM_SERVO_MODE = 0x0A"

text \<open>
  The members of the class.  A \<^verbatim>\<open>std::array\<close> is a list whose length the type fixes:
  12 for \<open>nominal\<close> and \<open>last_action\<close>, 4 for the other three (\<open>array_sizes\<close> below).
  The loaded network \<^verbatim>\<open>module_\<close> is not a member here: \<open>modelForward\<close> takes its
  forward pass as an argument.
\<close>

record Controller =
  foot_contact_threshold :: "16 word"
  scaled_factor :: cdouble
  nominal :: "cfloat list"
  last_action :: "cfloat list"
  foot_contact :: "cfloat list"
  cycles_since_last_contact :: "cfloat list"
  last_tick :: "cfloat list"

definition array_sizes :: "Controller \<Rightarrow> bool" where
  "array_sizes c \<longleftrightarrow>
     length (nominal c) = 12 \<and> length (last_action c) = 12 \<and> length (foot_contact c) = 4 \<and>
     length (cycles_since_last_contact c) = 4 \<and> length (last_tick c) = 4"

definition setFootContactThreshold :: "Controller \<Rightarrow> 16 word \<Rightarrow> Controller" where
  "setFootContactThreshold c threshold = c\<lparr>foot_contact_threshold := threshold\<rparr>"

definition getFootContactThreshold :: "Controller \<Rightarrow> 16 word" where
  "getFootContactThreshold c = foot_contact_threshold c"

definition UnitreeNeuralControl :: "16 word \<Rightarrow> cfloat list \<Rightarrow> Controller" where
  "UnitreeNeuralControl foot_threshold nominal_joint_position =
     (setFootContactThreshold
        \<lparr>foot_contact_threshold = 0, scaled_factor = d_quarter, nominal = [],
         last_action = replicate 12 f_zero, foot_contact = replicate 4 f_zero,
         cycles_since_last_contact = replicate 4 f_zero, last_tick = replicate 4 f_zero\<rparr>
        foot_threshold)
     \<lparr>nominal := nominal_joint_position,
      last_action := replicate 12 f_zero,
      last_tick := replicate 4 f_zero,
      foot_contact := replicate 4 f_zero,
      cycles_since_last_contact := replicate 4 f_zero\<rparr>"

definition pushJointPositions :: "Controller \<Rightarrow> QuadrupedState \<Rightarrow> cfloat list" where
  "pushJointPositions c leg =
     [fsub (q (hip (front_right leg))) (nominal c ! 0),
      fsub (q (thigh (front_right leg))) (nominal c ! 1),
      fsub (q (calf (front_right leg))) (nominal c ! 2),
      fsub (q (hip (front_left leg))) (nominal c ! 3),
      fsub (q (thigh (front_left leg))) (nominal c ! 4),
      fsub (q (calf (front_left leg))) (nominal c ! 5),
      fsub (q (hip (rear_right leg))) (nominal c ! 6),
      fsub (q (thigh (rear_right leg))) (nominal c ! 7),
      fsub (q (calf (rear_right leg))) (nominal c ! 8),
      fsub (q (hip (rear_left leg))) (nominal c ! 9),
      fsub (q (thigh (rear_left leg))) (nominal c ! 10),
      fsub (q (calf (rear_left leg))) (nominal c ! 11)]"

definition pushJointVelocities :: "cfloat list \<Rightarrow> LegState \<Rightarrow> cfloat list" where
  "pushJointVelocities tensor joint =
     ((tensor @ [dq (hip joint)]) @ [dq (thigh joint)]) @ [dq (calf joint)]"

definition convertFootForce :: "Controller \<Rightarrow> 16 word \<Rightarrow> cfloat" where
  "convertFootForce c force =
     (if sint force < sint (foot_contact_threshold c) then f_zero else f_one)"

definition convertFootForceToContact :: "Controller \<Rightarrow> FootForceState \<Rightarrow> Controller" where
  "convertFootForceToContact c foot =
     (let c = c\<lparr>foot_contact := (foot_contact c)[FL := convertFootForce c (front_left foot)]\<rparr>;
          c = c\<lparr>foot_contact := (foot_contact c)[FR := convertFootForce c (front_right foot)]\<rparr>;
          c = c\<lparr>foot_contact := (foot_contact c)[RL := convertFootForce c (rear_right foot)]\<rparr>;
          c = c\<lparr>foot_contact := (foot_contact c)[RR := convertFootForce c (rear_left foot)]\<rparr>
      in c)"

text \<open>The two overloads of \<^verbatim>\<open>updateCyclesSinceLastContact\<close>; each loop body is a function of
  the index.\<close>

definition cycles_step :: "nat \<Rightarrow> Controller \<Rightarrow> Controller" where
  "cycles_step i c =
     (if fp_eq (foot_contact c ! i) f_one
      then c\<lparr>cycles_since_last_contact := (cycles_since_last_contact c)[i := f_zero]\<rparr>
      else c\<lparr>cycles_since_last_contact :=
               (cycles_since_last_contact c)[i := fadd (cycles_since_last_contact c ! i) f_one]\<rparr>)"

definition updateCyclesSinceLastContact :: "Controller \<Rightarrow> Controller" where
  "updateCyclesSinceLastContact c = fold cycles_step [0..<length (foot_contact c)] c"

definition tick_step :: "cfloat \<Rightarrow> nat \<Rightarrow> Controller \<Rightarrow> Controller" where
  "tick_step tick_ms i c =
     (if fp_eq (foot_contact c ! i) f_one
      then (c\<lparr>last_tick := (last_tick c)[i := tick_ms]\<rparr>)
             \<lparr>cycles_since_last_contact := (cycles_since_last_contact c)[i := f_zero]\<rparr>
      else c\<lparr>cycles_since_last_contact :=
               (cycles_since_last_contact c)[i := fsub tick_ms (last_tick c ! i)]\<rparr>)"

definition updateCyclesSinceLastContact_tick :: "Controller \<Rightarrow> 32 word \<Rightarrow> Controller" where
  "updateCyclesSinceLastContact_tick c tick =
     (let tick_ms = fdiv (fp_of_nat binary32 (unat tick)) f_thousand
      in fold (tick_step tick_ms) [0..<length (foot_contact c)] c)"

subsection \<open>The gravity vector\<close>

text \<open>
  Modelled from the Eigen library (3.3 and later), which is not part of the repository:
  the product of a quaternion and a vector is \<^verbatim>\<open>QuaternionBase::_transformVector\<close>,
  \<^verbatim>\<open>uv = vec().cross(v); uv += uv; return v + w() * uv + vec().cross(uv)\<close>, and
  \<^verbatim>\<open>normalize()\<close> divides by the square root of the squared norm when that is positive.
\<close>

type_synonym Vector3f = "cfloat \<times> cfloat \<times> cfloat"
type_synonym Quaternionf = "cfloat \<times> cfloat \<times> cfloat \<times> cfloat"

fun cross :: "Vector3f \<Rightarrow> Vector3f \<Rightarrow> Vector3f" where
  "cross (ax, ay, az) (bx, by, bz) =
     (fsub (fmul ay bz) (fmul az by), fsub (fmul az bx) (fmul ax bz),
      fsub (fmul ax by) (fmul ay bx))"

fun vadd :: "Vector3f \<Rightarrow> Vector3f \<Rightarrow> Vector3f" where
  "vadd (ax, ay, az) (bx, by, bz) = (fadd ax bx, fadd ay by, fadd az bz)"

fun vscale :: "cfloat \<Rightarrow> Vector3f \<Rightarrow> Vector3f" where
  "vscale k (ax, ay, az) = (fmul k ax, fmul k ay, fmul k az)"

text \<open>A \<open>Quaternionf\<close> is built from \<open>(w, x, y, z)\<close>, as the constructor of Eigen is.\<close>

fun transformVector :: "Quaternionf \<Rightarrow> Vector3f \<Rightarrow> Vector3f" where
  "transformVector (qw, qx, qy, qz) v =
     (let uv = cross (qx, qy, qz) v;
          uv = vadd uv uv
      in vadd (vadd v (vscale qw uv)) (cross (qx, qy, qz) uv))"

fun normalize :: "Vector3f \<Rightarrow> Vector3f" where
  "normalize (ax, ay, az) =
     (let n = fadd (fmul ax ax) (fadd (fmul ay ay) (fmul az az))
      in if fp_lt f_zero n
         then (let r = fsqrt n in (fdiv ax r, fdiv ay r, fdiv az r))
         else (ax, ay, az))"

definition convertToGravityVector :: "Quaternion \<Rightarrow> cfloat list" where
  "convertToGravityVector orientation' =
     (let imu_orientation =
            (float_of_double (quat_w orientation'), float_of_double (quat_x orientation'),
             float_of_double (quat_y orientation'), float_of_double (quat_z orientation'));
          gravity_world = (f_zero, f_zero, f_minus_one);
          gravity_sensor = transformVector imu_orientation gravity_world;
          gravity_sensor = normalize gravity_sensor
      in case gravity_sensor of (gx, gy, gz) \<Rightarrow> [gx, gy, gz])"








subsection \<open>Feature vector and command\<close>

definition msgToTensor :: "Controller \<Rightarrow> TwistStamped \<Rightarrow> LowState \<Rightarrow> cfloat list \<times> Controller" where
  "msgToTensor c goal msg =
     (let tensor = [];
          position = pushJointPositions c (motor_state msg);
          tensor = tensor @ position;
          tensor = tensor @ [float_of_double (quat_x (orientation (imu msg)))];
          tensor = tensor @ [float_of_double (quat_y (orientation (imu msg)))];
          tensor = tensor @ [float_of_double (quat_z (orientation (imu msg)))];
          tensor = pushJointVelocities tensor (front_right (motor_state msg));
          tensor = pushJointVelocities tensor (front_left (motor_state msg));
          tensor = pushJointVelocities tensor (rear_right (motor_state msg));
          tensor = pushJointVelocities tensor (rear_left (motor_state msg));
          tensor = tensor @ [float_of_double (vec_x (linear (twist goal)))];
          tensor = tensor @ [float_of_double (vec_y (linear (twist goal)))];
          tensor = tensor @ [float_of_double (vec_z (angular (twist goal)))];
          c = convertFootForceToContact c (foot_force msg);
          tensor = tensor @ foot_contact c;
          gravity_vec = convertToGravityVector (orientation (imu msg));
          tensor = tensor @ gravity_vec;
          tensor = tensor @ last_action c;
          c = updateCyclesSinceLastContact c;
          tensor = tensor @ cycles_since_last_contact c
      in (tensor, c))"

definition initControlParams :: "LowCmd \<Rightarrow> LowCmd" where
  "initControlParams cmd =
     cmd\<lparr>common := ((common cmd)\<lparr>mode := 0x0A\<rparr>)\<lparr>kp := f_twenty\<rparr>\<lparr>kd := f_half\<rparr>\<rparr>"

text \<open>Reading a \<^verbatim>\<open>std::vector\<close> past its end is undefined behaviour: \<open>actionToMsg\<close> stops
  with an error there.\<close>

datatype error = OutOfRange

text \<open>A default-constructed command: every field of a message starts at zero.\<close>

definition LowCmd_default :: LowCmd where
  "LowCmd_default =
     (let leg = \<lparr>hip = f_zero, thigh = f_zero, calf = f_zero\<rparr>
      in \<lparr>motor_cmd = \<lparr>front_right = leg, front_left = leg, rear_right = leg, rear_left = leg\<rparr>,
          common = \<lparr>mode = 0, kp = f_zero, kd = f_zero\<rparr>\<rparr>)"

definition actionToMsg :: "Controller \<Rightarrow> cfloat list \<Rightarrow> error + LowCmd" where
  "actionToMsg c action =
     (if length action < 12 then Inl OutOfRange
      else Inr (initControlParams
        (LowCmd_default\<lparr>motor_cmd :=
           \<lparr>front_right = \<lparr>hip = fadd (nominal c ! 0) (action ! 0),
                            thigh = fadd (nominal c ! 1) (action ! 1),
                            calf = fadd (nominal c ! 2) (action ! 2)\<rparr>,
            front_left = \<lparr>hip = fadd (nominal c ! 3) (action ! 3),
                           thigh = fadd (nominal c ! 4) (action ! 4),
                           calf = fadd (nominal c ! 5) (action ! 5)\<rparr>,
            rear_right = \<lparr>hip = fadd (nominal c ! 6) (action ! 6),
                           thigh = fadd (nominal c ! 7) (action ! 7),
                           calf = fadd (nominal c ! 8) (action ! 8)\<rparr>,
            rear_left = \<lparr>hip = fadd (nominal c ! 9) (action ! 9),
                          thigh = fadd (nominal c ! 10) (action ! 10),
                          calf = fadd (nominal c ! 11) (action ! 11)\<rparr>\<rparr>\<rparr>)))"

text \<open>
  \<open>modelForward\<close>: the forward pass of the network is the argument \<open>forward\<close>.

  The \<^verbatim>\<open>std::transform\<close> writes, for every index of \<open>action_vec\<close>, the blend of the entry
  of \<open>state\<close> at that index and the entry of \<open>action_vec\<close>, computed in \<^verbatim>\<open>double\<close>, back into
  \<open>action_vec\<close>.  Its only bound is the length of \<open>action_vec\<close>; an index past the end of
  \<open>state\<close> reads memory that is not modelled, and the value of \<open>state ! i\<close> there is left
  open.

  The \<^verbatim>\<open>std::copy\<close> then writes all of \<open>action_vec\<close> from the start of \<open>last_action\<close> on,
  again without a bound.  \<open>last_action\<close>, \<open>foot_contact\<close>, \<open>cycles_since_last_contact\<close> and
  \<open>last_tick\<close> are consecutive members of the class, each an array of \<^verbatim>\<open>float\<close>, so they lie one
  after the other in the object: a thirteenth entry of \<open>action_vec\<close> lands in
  \<open>foot_contact[0]\<close>, a seventeenth in \<open>cycles_since_last_contact[0]\<close>, a twenty-first in
  \<open>last_tick[0]\<close>.  Entries past the end of \<open>last_tick\<close> land outside the object and are
  not part of the state.

  The result is the new state of the controller, the command and the published tensor.
\<close>

definition blend :: "Controller \<Rightarrow> cfloat \<Rightarrow> cfloat \<Rightarrow> cfloat" where
  "blend c a b =
     float_of_double (dadd (double_of_float a) (dmul (double_of_float b) (scaled_factor c)))"

definition copy_to_last_action :: "cfloat list \<Rightarrow> Controller \<Rightarrow> Controller" where
  "copy_to_last_action xs c =
     (let mem = last_action c @ foot_contact c @ cycles_since_last_contact c @ last_tick c;
          mem = take (length mem) xs @ drop (length xs) mem
      in c\<lparr>last_action := take 12 mem,
           foot_contact := take 4 (drop 12 mem),
           cycles_since_last_contact := take 4 (drop 16 mem),
           last_tick := take 4 (drop 20 mem)\<rparr>)"

definition modelForward ::
  "(cfloat list \<Rightarrow> cfloat list) \<Rightarrow> Controller \<Rightarrow> TwistStamped \<Rightarrow> LowState
     \<Rightarrow> error + (Controller \<times> LowCmd \<times> cfloat list)" where
  "modelForward forward c goal msg =
     (case msgToTensor c goal msg of (state, c) \<Rightarrow>
        let action_vec = forward state;
            action_vec = map (\<lambda>i. blend c (state ! i) (action_vec ! i)) [0..<length action_vec];
            c = copy_to_last_action action_vec c;
            tensor = state
        in case actionToMsg c action_vec of
             Inl e \<Rightarrow> Inl e
           | Inr cmd \<Rightarrow> Inr (c, cmd, tensor))"

section \<open>Orders of the specification and a scenario\<close>

text \<open>
  The specification fixes the order of the legs as front-right, front-left, rear-right,
  rear-left and of the joints of a leg as hip, thigh, calf.  The three lists below read the
  twelve angles and velocities of a sensor snapshot and the twelve targets of a command
  in that order.
\<close>

definition joint_angles :: "QuadrupedState \<Rightarrow> cfloat list" where
  "joint_angles st =
     [q (hip (front_right st)), q (thigh (front_right st)), q (calf (front_right st)),
      q (hip (front_left st)), q (thigh (front_left st)), q (calf (front_left st)),
      q (hip (rear_right st)), q (thigh (rear_right st)), q (calf (rear_right st)),
      q (hip (rear_left st)), q (thigh (rear_left st)), q (calf (rear_left st))]"

definition joint_velocities :: "QuadrupedState \<Rightarrow> cfloat list" where
  "joint_velocities st =
     [dq (hip (front_right st)), dq (thigh (front_right st)), dq (calf (front_right st)),
      dq (hip (front_left st)), dq (thigh (front_left st)), dq (calf (front_left st)),
      dq (hip (rear_right st)), dq (thigh (rear_right st)), dq (calf (rear_right st)),
      dq (hip (rear_left st)), dq (thigh (rear_left st)), dq (calf (rear_left st))]"

definition joint_targets :: "LowCmd \<Rightarrow> cfloat list" where
  "joint_targets cmd =
     (let m = motor_cmd cmd in
      [hip (front_right m), thigh (front_right m), calf (front_right m),
       hip (front_left m), thigh (front_left m), calf (front_left m),
       hip (rear_right m), thigh (rear_right m), calf (rear_right m),
       hip (rear_left m), thigh (rear_left m), calf (rear_left m)])"

text \<open>
  The end-to-end scenario of the specification: nominal pose zero, every joint at 0.1,
  threshold 50, foot forces 60, 40, 60, 40 for front-right, front-left, rear-right,
  rear-left; the orientation is the identity and the goal velocity is zero.
\<close>

definition identity_orientation :: Quaternion where
  "identity_orientation = \<lparr>quat_x = d_zero, quat_y = d_zero, quat_z = d_zero, quat_w = d_one\<rparr>"


definition uniform_joints :: "cfloat \<Rightarrow> cfloat \<Rightarrow> QuadrupedState" where
  "uniform_joints a v =
     (let leg = \<lparr>hip = \<lparr>q = a, dq = v\<rparr>, thigh = \<lparr>q = a, dq = v\<rparr>, calf = \<lparr>q = a, dq = v\<rparr>\<rparr>
      in \<lparr>front_right = leg, front_left = leg, rear_right = leg, rear_left = leg\<rparr>)"

definition zero_goal :: TwistStamped where
  "zero_goal =
     (let v = \<lparr>vec_x = d_zero, vec_y = d_zero, vec_z = d_zero\<rparr>
      in \<lparr>twist = \<lparr>linear = v, angular = v\<rparr>\<rparr>)"

definition f_tenth :: cfloat where "f_tenth = Finite False 13421773 (- 27)"

definition scenario_controller :: Controller where
  "scenario_controller = UnitreeNeuralControl 50 (replicate 12 f_zero)"

definition scenario_msg :: LowState where
  "scenario_msg =
     \<lparr>motor_state = uniform_joints f_tenth f_zero,
      imu = \<lparr>orientation = identity_orientation\<rparr>,
      foot_force = \<lparr>front_right = 60, front_left = 40, rear_right = 60, rear_left = 40\<rparr>\<rparr>"

text \<open>
  The scenario after its first contact classification; a controller with every foot in
  contact; the same controller after a timestamp update at tick 5000 and a classification
  with every foot off the ground; the value \<open>5.0\<close>; a forward pass that returns \<open>1.0\<close>
  for each of the twelve joints, and one that returns thirteen values; and foot forces
  with the rear-left foot alone above the threshold of the scenario.
\<close>

definition scenario_contact :: Controller where
  "scenario_contact = convertFootForceToContact scenario_controller (foot_force scenario_msg)"

definition all_forces :: "16 word \<Rightarrow> FootForceState" where
  "all_forces force =
     \<lparr>front_right = force, front_left = force, rear_right = force, rear_left = force\<rparr>"

definition stance_controller :: Controller where
  "stance_controller = convertFootForceToContact scenario_controller (all_forces 60)"

definition swing_controller :: Controller where
  "swing_controller =
     convertFootForceToContact (updateCyclesSinceLastContact_tick stance_controller 5000)
       (all_forces 40)"

definition f_five :: cfloat where "f_five = Finite False 10485760 (- 21)"

definition constant_policy :: "cfloat list \<Rightarrow> cfloat list" where
  "constant_policy state = replicate 12 f_one"

definition long_policy :: "cfloat list \<Rightarrow> cfloat list" where
  "long_policy state = replicate 13 f_one"


text \<open>Four contact flags, each exactly \<open>0.0\<close> or exactly \<open>1.0\<close>.\<close>

definition binary_flags :: "Controller \<Rightarrow> bool" where
  "binary_flags c \<longleftrightarrow>
     length (foot_contact c) = 4 \<and> list_all (\<lambda>x. x = f_zero \<or> x = f_one) (foot_contact c)"

section \<open>Evaluation and arithmetic of the floating-point operations\<close>

lemma floorlog2_numeral: "floorlog 2 (numeral n) = floorlog 2 (numeral n div 2) + 1"
  by (subst compute_floorlog) simp

lemma floorlog2_0: "floorlog 2 0 = 0"
  by (simp add: floorlog_def)

lemma floorlog2_1: "floorlog 2 (Suc 0) = 1"
  by (subst compute_floorlog) (simp add: floorlog_def)

lemma isqrt_numeral: "isqrt (numeral n) = (if numeral n < (2::nat) then numeral n
              else let r = 2 * isqrt (numeral n div 4) in
                   if (r + 1) * (r + 1) \<le> numeral n then r + 1 else r)"
  by (rule isqrt.simps)

lemma isqrt_0: "isqrt 0 = 0"
  by (simp add: isqrt.simps)

lemma isqrt_1: "isqrt (Suc 0) = Suc 0"
  by (simp add: isqrt.simps)

lemmas fp_eval = fp_of_nat_def fp_round_def binary32_def binary64_def rne_def with_sign_def
  floorlog2_numeral floorlog2_0 floorlog2_1 isqrt_numeral isqrt_0 isqrt_1 fp_sub_def Let_def
  f_zero_def f_one_def f_minus_one_def f_thousand_def f_twenty_def f_half_def
  d_zero_def d_one_def d_quarter_def

lemma lits:
  "f_zero = fp_of_nat binary32 0" "f_one = fp_of_nat binary32 1"
  "f_thousand = fp_of_nat binary32 1000" "f_twenty = fp_of_nat binary32 20"
  "f_half = fp_div binary32 (fp_of_nat binary32 1) (fp_of_nat binary32 2)"
  "d_quarter = fp_div binary64 (fp_of_nat binary64 1) (fp_of_nat binary64 4)"
  "f_minus_one = fp_neg f_one" "d_one = fp_of_nat binary64 1"
  by (simp_all add: fp_eval)

lemma fp_of_nat_small:
  assumes "0 < n" "n < 2 ^ 24"
  shows "fp_of_nat binary32 n =
         Finite False (n * 2 ^ (24 - floorlog 2 n)) (int (floorlog 2 n) - 24)"
proof -
  have "floorlog 2 n \<le> 24" using assms by (simp add: floorlog_le_iff)
  moreover have "floorlog 2 n \<noteq> 0" using assms by (simp add: floorlog_eq_zero_iff)
  ultimately show ?thesis using assms
    by (simp add: fp_of_nat_def fp_round_def binary32_def Let_def max_def nat_diff_distrib)
qed

lemma fp_val_of_nat:
  assumes "n \<le> 2 ^ 24"
  shows "fp_val (fp_of_nat binary32 n) = Some (of_nat n)"
proof -
  consider "n = 0" | "n = 2 ^ 24" | "0 < n" "n < 2 ^ 24" using assms by force
  then show ?thesis
  proof cases
    case 1 then show ?thesis by (simp add: fp_eval)
  next
    case 2 then show ?thesis by (simp add: fp_eval)
  next
    case 3
    have le: "floorlog 2 n \<le> 24" using 3 by (simp add: floorlog_le_iff)
    have nn: "nat (24 - int (floorlog 2 n)) = 24 - floorlog 2 n" by arith
    show ?thesis
      using le by (simp add: fp_of_nat_small [OF 3] with_sign_def nn)
  qed
qed

lemma scale_sum: "(p::nat) * r = t \<Longrightarrow> n * p * r + t = (n + 1) * t"
  by (simp add: mult.assoc)

lemma scale_split: "(p::nat) * r = t \<Longrightarrow> n * t = (n * p) * r"
  by (simp add: mult.assoc)

lemma rne_exact: "rne (d * 2 ^ k) k = d"
  by (simp add: rne_def)

lemma fp_round32_shift:
  assumes "floorlog 2 m = b + 23" "1 < b" "b \<le> 24" "rne m (b - 1) = d" "d < 2 ^ 24"
  shows "fp_round binary32 False m (- 23) = Finite False d (int b - 24)"
proof -
  have "m \<noteq> 0"
  proof
    assume "m = 0"
    then have "floorlog 2 m = 0" by (simp add: floorlog_def)
    with assms(1) show False by simp
  qed
  moreover have "nat (int b - 1) = b - 1" by arith
  ultimately show ?thesis using assms
    by (simp add: fp_round_def binary32_def Let_def max_def)
qed

lemma fadd_one_small:
  assumes "n < 2 ^ 24"
  shows "fadd (fp_of_nat binary32 n) f_one = fp_of_nat binary32 (n + 1)"
proof -
  consider "n = 0" | "n = 2 ^ 24 - 1" | "0 < n" "n + 1 < 2 ^ 24" using assms by force
  then show ?thesis
  proof cases
    case 1 then show ?thesis by (simp add: fp_eval)
  next
    case 2 then show ?thesis by (simp add: fp_eval)
  next
    case 3
    define a where "a = floorlog 2 n"
    define b where "b = floorlog 2 (n + 1)"
    have "a \<noteq> 0" using 3 by (simp add: a_def floorlog_eq_zero_iff)
    then have a: "0 < a" "a \<le> 24" using 3 by (simp_all add: a_def floorlog_le_iff)
    have "Suc 1 \<le> floorlog 2 (n + 1)"
      by (rule floorlog_ge_SucI) (use 3 in simp_all)
    then have b: "1 < b" "b \<le> 24"
      using 3 by (simp_all add: b_def floorlog_le_iff)
    have n: "n < 2 ^ 24" using 3 by simp
    have x: "fp_of_nat binary32 n = Finite False (n * 2 ^ (24 - a)) (int a - 24)"
      using fp_of_nat_small [of n] 3 n by (simp add: a_def)
    have y: "fp_of_nat binary32 (n + 1) = Finite False ((n + 1) * 2 ^ (24 - b)) (int b - 24)"
      using fp_of_nat_small [of "n + 1"] 3 by (simp add: b_def)
    have pw: "(2::nat) ^ (24 - a) * 2 ^ (a - 1) = 2 ^ 23"
      using a by (simp flip: power_add)
    have sum: "n * 2 ^ (24 - a) * 2 ^ (a - 1) + 2 ^ 23 = (n + 1) * 2 ^ 23"
      using pw by (rule scale_sum)
    have fl: "floorlog 2 ((n + 1) * 2 ^ 23) = b + 23"
      unfolding b_def by (rule floorlog_power) simp_all
    have split: "(n + 1) * 2 ^ 23 = ((n + 1) * 2 ^ (24 - b)) * 2 ^ (b - 1)"
    proof -
      have "(2::nat) ^ (24 - b) * 2 ^ (b - 1) = 2 ^ 23" using b by (simp flip: power_add)
      then show ?thesis by (rule scale_split)
    qed
    have r: "rne ((n + 1) * 2 ^ 23) (b - 1) = (n + 1) * 2 ^ (24 - b)"
      by (subst split) (rule rne_exact)
    have lt: "(n + 1) * 2 ^ (24 - b) < 2 ^ 24"
    proof -
      have "n + 1 < 2 ^ b" using floorlog_bounds [of "n + 1" 2] by (simp add: b_def)
      then have "(n + 1) * 2 ^ (24 - b) < 2 ^ b * 2 ^ (24 - b)"
        by (rule mult_strict_right_mono) simp
      also have "\<dots> = 2 ^ 24" using b by (simp flip: power_add)
      finally show ?thesis .
    qed
    have min: "min (int a - 24) (- 23) = - 23" using a by simp
    have e1: "nat (int a - 1) = a - 1" using a by simp
    have sum': "n * 2 ^ (24 - a) * 2 ^ (a - 1) + 8388608 = (n + 1) * 2 ^ 23"
      using sum by simp
    have "fadd (Finite False (n * 2 ^ (24 - a)) (int a - 24)) f_one =
          fp_round binary32 False (n * 2 ^ (24 - a) * 2 ^ (a - 1) + 8388608) (- 23)"
      using 3 by (simp add: f_one_def Let_def min e1 with_sign_def
          flip: of_nat_add of_nat_mult of_nat_power)
    also have "\<dots> = fp_round binary32 False ((n + 1) * 2 ^ 23) (- 23)"
      by (simp only: sum')
    also have "\<dots> = Finite False ((n + 1) * 2 ^ (24 - b)) (int b - 24)"
      using fl b r lt by (rule fp_round32_shift)
    finally show ?thesis by (simp only: x y)
  qed
qed

lemma fadd_one_saturated:
  "fadd (fp_of_nat binary32 (2 ^ 24)) f_one = fp_of_nat binary32 (2 ^ 24)"
  by (simp add: fp_eval)

section \<open>The operations of the controller\<close>

subsection \<open>Arrays of four and twelve entries\<close>

lemma list4: "length xs = 4 \<Longrightarrow> \<exists>a b c d. xs = [a, b, c, d]"
  by (auto simp: eval_nat_numeral length_Suc_conv)

lemma less4: "i < 4 \<longleftrightarrow> i = 0 \<or> i = 1 \<or> i = 2 \<or> i = (3::nat)"
  by arith

lemma less12: "i < 12 \<longleftrightarrow> i = 0 \<or> i = 1 \<or> i = 2 \<or> i = 3 \<or> i = 4 \<or> i = 5 \<or> i = 6 \<or> i = 7
     \<or> i = 8 \<or> i = 9 \<or> i = 10 \<or> i = (11::nat)"
  by arith

subsection \<open>Contact flags and the tick counter, as lists\<close>

lemma convertFootForce_upd [simp]:
  "convertFootForce (c\<lparr>foot_contact := xs\<rparr>) force = convertFootForce c force"
  by (simp add: convertFootForce_def)

lemma convertFootForceToContact_eq:
  assumes "length (foot_contact c) = 4"
  shows "convertFootForceToContact c foot =
         c\<lparr>foot_contact := [convertFootForce c (front_left foot), convertFootForce c (front_right foot),
                             convertFootForce c (rear_right foot), convertFootForce c (rear_left foot)]\<rparr>"
proof -
  from list4 [OF assms] obtain a b c' d where "foot_contact c = [a, b, c', d]" by blast
  then show ?thesis
    by (simp add: convertFootForceToContact_def Let_def FL_def FR_def RL_def RR_def)
qed

lemma upt4: "[0..<4] = [0, 1, 2, 3]"
  by (simp add: upt_rec)

lemma updateCycles_eq:
  assumes "foot_contact c = [a0, a1, a2, a3]" "cycles_since_last_contact c = [c0, c1, c2, c3]"
  shows "updateCyclesSinceLastContact c =
         c\<lparr>cycles_since_last_contact :=
             [if fp_eq a0 f_one then f_zero else fadd c0 f_one,
              if fp_eq a1 f_one then f_zero else fadd c1 f_one,
              if fp_eq a2 f_one then f_zero else fadd c2 f_one,
              if fp_eq a3 f_one then f_zero else fadd c3 f_one]\<rparr>"
  using assms by (simp add: updateCyclesSinceLastContact_def upt4 cycles_step_def)

lemma updateCycles_nth:
  assumes "array_sizes c" "i < 4"
  shows "cycles_since_last_contact (updateCyclesSinceLastContact c) ! i =
           (if fp_eq (foot_contact c ! i) f_one then f_zero
            else fadd (cycles_since_last_contact c ! i) f_one)"
proof -
  from assms(1) obtain a0 a1 a2 a3 c0 c1 c2 c3
    where *: "foot_contact c = [a0, a1, a2, a3]" "cycles_since_last_contact c = [c0, c1, c2, c3]"
    using list4 [of "foot_contact c"] list4 [of "cycles_since_last_contact c"]
    by (auto simp: array_sizes_def)
  from assms(2) show ?thesis
    by (auto simp: less4 updateCycles_eq [OF *] *)
qed

lemma updateCycles_other:
  assumes "array_sizes c"
  shows "foot_contact (updateCyclesSinceLastContact c) = foot_contact c"
    and "array_sizes (updateCyclesSinceLastContact c)"
    and "nominal (updateCyclesSinceLastContact c) = nominal c"
    and "last_action (updateCyclesSinceLastContact c) = last_action c"
    and "last_tick (updateCyclesSinceLastContact c) = last_tick c"
    and "foot_contact_threshold (updateCyclesSinceLastContact c) = foot_contact_threshold c"
    and "scaled_factor (updateCyclesSinceLastContact c) = scaled_factor c"
proof -
  from assms obtain a0 a1 a2 a3 c0 c1 c2 c3
    where *: "foot_contact c = [a0, a1, a2, a3]" "cycles_since_last_contact c = [c0, c1, c2, c3]"
    using list4 [of "foot_contact c"] list4 [of "cycles_since_last_contact c"]
    by (auto simp: array_sizes_def)
  show "foot_contact (updateCyclesSinceLastContact c) = foot_contact c"
    and "array_sizes (updateCyclesSinceLastContact c)"
    and "nominal (updateCyclesSinceLastContact c) = nominal c"
    and "last_action (updateCyclesSinceLastContact c) = last_action c"
    and "last_tick (updateCyclesSinceLastContact c) = last_tick c"
    and "foot_contact_threshold (updateCyclesSinceLastContact c) = foot_contact_threshold c"
    and "scaled_factor (updateCyclesSinceLastContact c) = scaled_factor c"
    using assms by (simp_all add: updateCycles_eq [OF *] array_sizes_def)
qed

lemma convertToGravityVector_length: "length (convertToGravityVector o') = 3"
  by (simp add: convertToGravityVector_def Let_def split: prod.splits)

lemma msgToTensor_eq:
  assumes "array_sizes c"
  shows "msgToTensor c goal msg =
    (pushJointPositions c (motor_state msg) @
     [float_of_double (quat_x (orientation (imu msg))),
      float_of_double (quat_y (orientation (imu msg))),
      float_of_double (quat_z (orientation (imu msg)))] @
     joint_velocities (motor_state msg) @
     [float_of_double (vec_x (linear (twist goal))),
      float_of_double (vec_y (linear (twist goal))),
      float_of_double (vec_z (angular (twist goal)))] @
     foot_contact (convertFootForceToContact c (foot_force msg)) @
     convertToGravityVector (orientation (imu msg)) @
     last_action c @
     cycles_since_last_contact
       (updateCyclesSinceLastContact (convertFootForceToContact c (foot_force msg))),
     updateCyclesSinceLastContact (convertFootForceToContact c (foot_force msg)))"
proof -
  have 4: "length (foot_contact c) = 4" using assms by (simp add: array_sizes_def)
  show ?thesis
    by (simp add: msgToTensor_def Let_def pushJointVelocities_def joint_velocities_def
        convertFootForceToContact_eq [OF 4])
qed

lemma convertFootForceToContact_flags:
  assumes "array_sizes c"
  shows "foot_contact (convertFootForceToContact c foot) =
           [if sint (front_left foot) < sint (foot_contact_threshold c) then f_zero else f_one,
            if sint (front_right foot) < sint (foot_contact_threshold c) then f_zero else f_one,
            if sint (rear_right foot) < sint (foot_contact_threshold c) then f_zero else f_one,
            if sint (rear_left foot) < sint (foot_contact_threshold c) then f_zero else f_one]"
proof -
  have "length (foot_contact c) = 4" using assms by (simp add: array_sizes_def)
  then show ?thesis
    by (simp add: convertFootForceToContact_eq convertFootForce_def)
qed

lemma array_sizes_init:
  "length nominal_joint_position = 12 \<Longrightarrow>
   array_sizes (UnitreeNeuralControl foot_threshold nominal_joint_position)"
  by (simp add: array_sizes_def UnitreeNeuralControl_def setFootContactThreshold_def)

lemma init_fields:
  "foot_contact_threshold (UnitreeNeuralControl t n) = t"
  "nominal (UnitreeNeuralControl t n) = n"
  "last_action (UnitreeNeuralControl t n) = replicate 12 f_zero"
  "foot_contact (UnitreeNeuralControl t n) = replicate 4 f_zero"
  "cycles_since_last_contact (UnitreeNeuralControl t n) = replicate 4 f_zero"
  "last_tick (UnitreeNeuralControl t n) = replicate 4 f_zero"
  "scaled_factor (UnitreeNeuralControl t n) = d_quarter"
  by (simp_all add: UnitreeNeuralControl_def setFootContactThreshold_def)

subsection \<open>The layout of the feature vector\<close>

lemma pushJointPositions_length: "length (pushJointPositions c st) = 12"
  by (simp add: pushJointPositions_def)

lemma joint_velocities_length: "length (joint_velocities st) = 12"
  by (simp add: joint_velocities_def)

lemma convertFootForceToContact_sizes:
  assumes "array_sizes c"
  shows "array_sizes (convertFootForceToContact c foot)"
    and "length (foot_contact (convertFootForceToContact c foot)) = 4"
    and "cycles_since_last_contact (convertFootForceToContact c foot) = cycles_since_last_contact c"
    and "last_action (convertFootForceToContact c foot) = last_action c"
    and "nominal (convertFootForceToContact c foot) = nominal c"
    and "last_tick (convertFootForceToContact c foot) = last_tick c"
    and "foot_contact_threshold (convertFootForceToContact c foot) = foot_contact_threshold c"
    and "scaled_factor (convertFootForceToContact c foot) = scaled_factor c"
proof -
  have 4: "length (foot_contact c) = 4" using assms by (simp add: array_sizes_def)
  show "array_sizes (convertFootForceToContact c foot)"
    and "length (foot_contact (convertFootForceToContact c foot)) = 4"
    and "cycles_since_last_contact (convertFootForceToContact c foot) = cycles_since_last_contact c"
    and "last_action (convertFootForceToContact c foot) = last_action c"
    and "nominal (convertFootForceToContact c foot) = nominal c"
    and "last_tick (convertFootForceToContact c foot) = last_tick c"
    and "foot_contact_threshold (convertFootForceToContact c foot) = foot_contact_threshold c"
    and "scaled_factor (convertFootForceToContact c foot) = scaled_factor c"
    using assms by (simp_all add: convertFootForceToContact_eq [OF 4] array_sizes_def)
qed

lemma take_drop_blocks:
  assumes "length a = 12" "length b = 3" "length v = 12" "length g = 3" "length f = 4"
    "length r = 3" "length l = 12" "length y = 4"
  shows "length (a @ b @ v @ g @ f @ r @ l @ y) = 53"
    and "take 12 (a @ b @ v @ g @ f @ r @ l @ y) = a"
    and "take 3 (drop 12 (a @ b @ v @ g @ f @ r @ l @ y)) = b"
    and "take 12 (drop 15 (a @ b @ v @ g @ f @ r @ l @ y)) = v"
    and "take 3 (drop 27 (a @ b @ v @ g @ f @ r @ l @ y)) = g"
    and "take 4 (drop 30 (a @ b @ v @ g @ f @ r @ l @ y)) = f"
    and "take 3 (drop 34 (a @ b @ v @ g @ f @ r @ l @ y)) = r"
    and "take 12 (drop 37 (a @ b @ v @ g @ f @ r @ l @ y)) = l"
    and "drop 49 (a @ b @ v @ g @ f @ r @ l @ y) = y"
  using assms by simp_all

text \<open>
  Claim C1, as amended.  The feature vector has exactly 53 entries (12 + 3 + 12 + 3 + 4 +
  3 + 12 + 4), in this order: the 12 relative joint positions, the orientation \<open>x\<close>, \<open>y\<close>,
  \<open>z\<close>, the 12 joint velocities, the 3 goal velocities (linear \<open>x\<close>, linear \<open>y\<close>, angular
  \<open>z\<close>), the 4 contact flags after this tick's classification, the 3 components of the
  gravity vector, the 12 entries of \<open>last_action\<close> from before the call, and the 4 cycle
  counters after this tick's update.
\<close>

theorem C1_feature_vector_layout:
  assumes "array_sizes c"
  shows "case msgToTensor c goal msg of (tensor, c') \<Rightarrow>
     length tensor = 53 \<and>
     take 12 tensor = pushJointPositions c (motor_state msg) \<and>
     take 3 (drop 12 tensor) =
       [float_of_double (quat_x (orientation (imu msg))),
        float_of_double (quat_y (orientation (imu msg))),
        float_of_double (quat_z (orientation (imu msg)))] \<and>
     take 12 (drop 15 tensor) = joint_velocities (motor_state msg) \<and>
     take 3 (drop 27 tensor) =
       [float_of_double (vec_x (linear (twist goal))),
        float_of_double (vec_y (linear (twist goal))),
        float_of_double (vec_z (angular (twist goal)))] \<and>
     take 4 (drop 30 tensor) = foot_contact c' \<and>
     take 3 (drop 34 tensor) = convertToGravityVector (orientation (imu msg)) \<and>
     take 12 (drop 37 tensor) = last_action c \<and>
     drop 49 tensor = cycles_since_last_contact c'"
proof -
  let ?c1 = "convertFootForceToContact c (foot_force msg)"
  let ?c2 = "updateCyclesSinceLastContact ?c1"
  have s1: "array_sizes ?c1" using assms by (rule convertFootForceToContact_sizes)
  have s2: "array_sizes ?c2" using s1 by (rule updateCycles_other)
  have f: "foot_contact ?c2 = foot_contact ?c1" using s1 by (rule updateCycles_other)
  note blocks = take_drop_blocks [OF pushJointPositions_length _ joint_velocities_length _ _
      convertToGravityVector_length, of _ _ "foot_contact ?c1" "last_action c"
      "cycles_since_last_contact ?c2" c "motor_state msg" "motor_state msg" "orientation (imu msg)"]
  have l: "length (foot_contact ?c1) = 4" "length (last_action c) = 12"
    "length (cycles_since_last_contact ?c2) = 4"
    using assms s1 s2 by (simp_all add: array_sizes_def)
  show ?thesis
    unfolding msgToTensor_eq [OF assms] prod.case f
    by (intro conjI blocks l) simp_all
qed

lemma scenario_sizes: "array_sizes scenario_controller"
  by (simp add: scenario_controller_def array_sizes_init)

lemma msgToTensor_length:
  assumes "array_sizes c"
  shows "length (fst (msgToTensor c goal msg)) = 53"
proof -
  let ?c1 = "convertFootForceToContact c (foot_force msg)"
  have s1: "array_sizes ?c1" using assms by (rule convertFootForceToContact_sizes)
  have s2: "array_sizes (updateCyclesSinceLastContact ?c1)" using s1 by (rule updateCycles_other)
  show ?thesis
    using assms s1 s2
    by (simp add: msgToTensor_eq [OF assms] pushJointPositions_length joint_velocities_length
        convertToGravityVector_length array_sizes_def)
qed

text \<open>
  Claim C1 as stated gives the length as 57.  In the scenario the vector has 53 entries.
\<close>

theorem C1_counterexample:
  "length (fst (msgToTensor scenario_controller zero_goal scenario_msg)) \<noteq> 57"
  by (simp add: msgToTensor_length [OF scenario_sizes])

text \<open>
  The scenario satisfies the hypothesis; its vector has 53 entries and carries the zero
  initial \<open>last_action\<close> in entries 37 to 48.
\<close>

theorem C1_witness:
  "array_sizes scenario_controller \<and>
   length (fst (msgToTensor scenario_controller zero_goal scenario_msg)) = 53 \<and>
   take 12 (drop 37 (fst (msgToTensor scenario_controller zero_goal scenario_msg))) =
     replicate 12 f_zero"
  using scenario_sizes C1_feature_vector_layout [OF scenario_sizes, where goal = zero_goal and msg = scenario_msg]
  by (simp add: split_beta scenario_controller_def init_fields)

subsection \<open>Relative joint positions\<close>

lemma fsub_self:
  assumes "fp_is_finite x" "fp_eq x y"
  shows "fp_eq (fp_sub F x y) (Finite False 0 (emin F))"
proof (cases x)
  case (Finite s m e)
  with assms(2) obtain t n f where y: "y = Finite t n f" by (cases y) auto
  show ?thesis using assms(2) by (auto simp: Finite y fp_sub_def with_sign_def Let_def)
qed (use assms in auto)

lemma msgToTensor_position:
  assumes "array_sizes c" "i < 12"
  shows "fst (msgToTensor c goal msg) ! i =
         fsub (joint_angles (motor_state msg) ! i) (nominal c ! i)"
proof -
  have "fst (msgToTensor c goal msg) ! i = pushJointPositions c (motor_state msg) ! i"
    using assms by (simp add: msgToTensor_eq nth_append pushJointPositions_length)
  also have "\<dots> = fsub (joint_angles (motor_state msg) ! i) (nominal c ! i)"
    using assms(2) unfolding less12
    by (elim disjE) (simp_all add: pushJointPositions_def joint_angles_def)
  finally show ?thesis .
qed

text \<open>
  Claim C4.  Entry \<open>i\<close> of the feature vector, for \<open>i < 12\<close>, is the \<^verbatim>\<open>float\<close> difference of
  the \<open>i\<close>-th joint angle (in the order front-right, front-left, rear-right, rear-left and
  hip, thigh, calf) and the \<open>i\<close>-th nominal offset.  When the angle is a number (finite) and
  compares equal to the offset, the entry is zero.
\<close>

theorem C4_relative_joint_position:
  assumes "array_sizes c" "i < 12"
  shows "fst (msgToTensor c goal msg) ! i =
           fsub (joint_angles (motor_state msg) ! i) (nominal c ! i) \<and>
         (fp_is_finite (joint_angles (motor_state msg) ! i) \<and>
          fp_eq (joint_angles (motor_state msg) ! i) (nominal c ! i) \<longrightarrow>
            fp_eq (fst (msgToTensor c goal msg) ! i) f_zero)"
  using fsub_self [of "joint_angles (motor_state msg) ! i" "nominal c ! i" binary32]
  by (simp add: msgToTensor_position [OF assms] f_zero_def binary32_def)

text \<open>
  Every joint at 0.1 and a nominal pose of 0.1: entry 0 is zero.
\<close>

theorem C4_witness:
  "array_sizes (UnitreeNeuralControl 50 (replicate 12 f_tenth)) \<and> (0::nat) < 12 \<and>
   fp_is_finite (joint_angles (motor_state scenario_msg) ! 0) \<and>
   fp_eq (joint_angles (motor_state scenario_msg) ! 0)
     (nominal (UnitreeNeuralControl 50 (replicate 12 f_tenth)) ! 0) \<and>
   fst (msgToTensor (UnitreeNeuralControl 50 (replicate 12 f_tenth)) zero_goal scenario_msg) ! 0 =
     fsub f_tenth f_tenth \<and>
   fp_eq (fst (msgToTensor (UnitreeNeuralControl 50 (replicate 12 f_tenth)) zero_goal
     scenario_msg) ! 0) f_zero"
proof -
  have a: "array_sizes (UnitreeNeuralControl 50 (replicate 12 f_tenth))"
    by (simp add: array_sizes_init)
  have j: "joint_angles (motor_state scenario_msg) ! 0 = f_tenth"
    by (simp add: joint_angles_def scenario_msg_def uniform_joints_def Let_def)
  have fin: "fp_is_finite f_tenth" "fp_eq f_tenth f_tenth"
    by (simp_all add: f_tenth_def)
  have n: "nominal (UnitreeNeuralControl 50 (replicate 12 f_tenth)) ! 0 = f_tenth"
    by (simp add: init_fields)
  show ?thesis
    using a C4_relative_joint_position [OF a, where i = 0 and goal = zero_goal and msg = scenario_msg]
    by (auto simp: j n fin)
qed

subsection \<open>The command\<close>

lemma actionToMsg_targets:
  assumes "12 \<le> length action"
  shows "\<exists>cmd. actionToMsg c action = Inr cmd \<and>
     joint_targets cmd =
       [fadd (nominal c ! 0) (action ! 0), fadd (nominal c ! 1) (action ! 1),
        fadd (nominal c ! 2) (action ! 2), fadd (nominal c ! 3) (action ! 3),
        fadd (nominal c ! 4) (action ! 4), fadd (nominal c ! 5) (action ! 5),
        fadd (nominal c ! 6) (action ! 6), fadd (nominal c ! 7) (action ! 7),
        fadd (nominal c ! 8) (action ! 8), fadd (nominal c ! 9) (action ! 9),
        fadd (nominal c ! 10) (action ! 10), fadd (nominal c ! 11) (action ! 11)] \<and>
     common cmd = \<lparr>mode = 0x0A, kp = f_twenty, kd = f_half\<rparr>"
  using assms
  by (simp add: actionToMsg_def joint_targets_def initControlParams_def LowCmd_default_def Let_def)

lemma fadd_zero_zero: "fadd f_zero f_zero = f_zero"
  by (simp add: fp_eval)

lemma gain_values: "fp_val f_twenty = Some 20" "fp_val f_half = Some (1 / 2)"
  by (simp_all add: fp_eval)

text \<open>
  Claim C5.  For an action of at least 12 entries \<open>actionToMsg\<close> returns a command whose
  12 joint targets, in the order front-right, front-left, rear-right, rear-left and hip,
  thigh, calf, are \<open>nominal[i] + action[i]\<close> in \<^verbatim>\<open>float\<close> arithmetic; the mode is the servo
  mode \<open>0x0A\<close>, the position gain is 20 and the damping gain is 0.5, whatever the input.
  With a zero nominal pose and a zero action all twelve targets are zero.
\<close>

theorem C5_action_to_command:
  assumes "array_sizes c" "12 \<le> length action"
  shows "\<exists>cmd. actionToMsg c action = Inr cmd \<and>
     length (joint_targets cmd) = 12 \<and>
     (\<forall>i<12. joint_targets cmd ! i = fadd (nominal c ! i) (action ! i)) \<and>
     mode (common cmd) = PMSM_SERVO_MODE \<and>
     fp_val (kp (common cmd)) = Some 20 \<and>
     fp_val (kd (common cmd)) = Some (1 / 2) \<and>
     (nominal c = replicate 12 f_zero \<and> take 12 action = replicate 12 f_zero \<longrightarrow>
        joint_targets cmd = replicate 12 f_zero)"
proof -
  from actionToMsg_targets [OF assms(2), of c] obtain cmd where
    cmd: "actionToMsg c action = Inr cmd" and
    t: "joint_targets cmd =
       [fadd (nominal c ! 0) (action ! 0), fadd (nominal c ! 1) (action ! 1),
        fadd (nominal c ! 2) (action ! 2), fadd (nominal c ! 3) (action ! 3),
        fadd (nominal c ! 4) (action ! 4), fadd (nominal c ! 5) (action ! 5),
        fadd (nominal c ! 6) (action ! 6), fadd (nominal c ! 7) (action ! 7),
        fadd (nominal c ! 8) (action ! 8), fadd (nominal c ! 9) (action ! 9),
        fadd (nominal c ! 10) (action ! 10), fadd (nominal c ! 11) (action ! 11)]" and
    p: "common cmd = \<lparr>mode = 0x0A, kp = f_twenty, kd = f_half\<rparr>" by blast
  have n: "\<forall>i<12. joint_targets cmd ! i = fadd (nominal c ! i) (action ! i)"
    unfolding less12 t by auto
  have z: "joint_targets cmd = replicate 12 f_zero"
    if "nominal c = replicate 12 f_zero" "take 12 action = replicate 12 f_zero"
  proof -
    have "action ! i = f_zero" if "i < 12" for i
    proof -
      have "action ! i = take 12 action ! i" using that by simp
      then show ?thesis using that \<open>take 12 action = replicate 12 f_zero\<close> by simp
    qed
    then show ?thesis
      using that(1) by (simp add: t fadd_zero_zero eval_nat_numeral)
  qed
  show ?thesis
    using cmd n z by (auto simp: t p PMSM_SERVO_MODE_def gain_values)
qed

text \<open>
  The scenario with a zero action of length 12.
\<close>

theorem C5_witness:
  "array_sizes scenario_controller \<and> (12::nat) \<le> length (replicate 12 f_zero) \<and>
   nominal scenario_controller = replicate 12 f_zero \<and>
   take 12 (replicate 12 f_zero) = replicate 12 f_zero \<and>
   (\<exists>cmd. actionToMsg scenario_controller (replicate 12 f_zero) = Inr cmd \<and>
      joint_targets cmd = replicate 12 f_zero \<and> mode (common cmd) = 10 \<and>
      fp_val (kp (common cmd)) = Some 20 \<and> fp_val (kd (common cmd)) = Some (1 / 2))"
proof -
  have l: "(12::nat) \<le> length (replicate 12 f_zero)" by simp
  have n: "nominal scenario_controller = replicate 12 f_zero"
    by (simp add: scenario_controller_def init_fields)
  show ?thesis
    using scenario_sizes C5_action_to_command [OF scenario_sizes l] n
    by (auto simp: PMSM_SERVO_MODE_def)
qed

subsection \<open>What the updates keep\<close>

lemma tick_step_fields:
  "foot_contact (tick_step t i c) = foot_contact c"
  "nominal (tick_step t i c) = nominal c"
  "last_action (tick_step t i c) = last_action c"
  "foot_contact_threshold (tick_step t i c) = foot_contact_threshold c"
  "scaled_factor (tick_step t i c) = scaled_factor c"
  "length (cycles_since_last_contact (tick_step t i c)) = length (cycles_since_last_contact c)"
  "length (last_tick (tick_step t i c)) = length (last_tick c)"
  by (simp_all add: tick_step_def)

lemma fold_tick_step_fields:
  "foot_contact (fold (tick_step t) is c) = foot_contact c \<and>
   nominal (fold (tick_step t) is c) = nominal c \<and>
   last_action (fold (tick_step t) is c) = last_action c \<and>
   foot_contact_threshold (fold (tick_step t) is c) = foot_contact_threshold c \<and>
   scaled_factor (fold (tick_step t) is c) = scaled_factor c \<and>
   length (cycles_since_last_contact (fold (tick_step t) is c)) =
     length (cycles_since_last_contact c) \<and>
   length (last_tick (fold (tick_step t) is c)) = length (last_tick c)"
  by (induction "is" arbitrary: c) (simp_all add: tick_step_fields)

lemma updateCycles_tick_other:
  "foot_contact (updateCyclesSinceLastContact_tick c tick) = foot_contact c"
  "array_sizes c \<Longrightarrow> array_sizes (updateCyclesSinceLastContact_tick c tick)"
  using fold_tick_step_fields
  by (simp_all add: updateCyclesSinceLastContact_tick_def Let_def array_sizes_def)

lemma convertFootForceToContact_binary:
  assumes "array_sizes c"
  shows "binary_flags (convertFootForceToContact c foot)"
proof -
  have 4: "length (foot_contact c) = 4" using assms by (simp add: array_sizes_def)
  show ?thesis
    by (simp add: binary_flags_def convertFootForceToContact_eq [OF 4] convertFootForce_def)
qed

lemma msgToTensor_snd:
  assumes "array_sizes c"
  shows "snd (msgToTensor c goal msg) =
         updateCyclesSinceLastContact (convertFootForceToContact c (foot_force msg))"
  by (simp add: msgToTensor_eq [OF assms])

lemma msgToTensor_inv:
  assumes "array_sizes c"
  shows "array_sizes (snd (msgToTensor c goal msg))"
    and "binary_flags (snd (msgToTensor c goal msg))"
proof -
  let ?c1 = "convertFootForceToContact c (foot_force msg)"
  have s1: "array_sizes ?c1" using assms by (rule convertFootForceToContact_sizes)
  show "array_sizes (snd (msgToTensor c goal msg))"
    unfolding msgToTensor_snd [OF assms] using s1 by (rule updateCycles_other)
  have "foot_contact (updateCyclesSinceLastContact ?c1) = foot_contact ?c1"
    using s1 by (rule updateCycles_other)
  then show "binary_flags (snd (msgToTensor c goal msg))"
    unfolding msgToTensor_snd [OF assms]
    using convertFootForceToContact_binary [OF assms, of "foot_force msg"]
    by (simp add: binary_flags_def)
qed

subsection \<open>The contact flags of the scenario\<close>

lemma msgToTensor_flags:
  assumes "array_sizes c"
  shows "take 4 (drop 30 (fst (msgToTensor c goal msg))) =
         foot_contact (convertFootForceToContact c (foot_force msg))"
proof -
  let ?c1 = "convertFootForceToContact c (foot_force msg)"
  have s1: "array_sizes ?c1" using assms by (rule convertFootForceToContact_sizes)
  have l: "length (foot_contact ?c1) = 4" using s1 by (simp add: array_sizes_def)
  show ?thesis
    using l by (simp add: msgToTensor_eq [OF assms] pushJointPositions_length
        joint_velocities_length)
qed

text \<open>
  Claim C2, evaluated on the code.  In the scenario (forces 60, 40, 60, 40 for front-right,
  front-left, rear-right, rear-left, threshold 50) the four contact flags of the feature
  vector, entries 30 to 33, are \<open>0, 1, 1, 0\<close>: slot \<open>FL = 0\<close> holds the front-left flag, slot
  \<open>FR = 1\<close> the front-right flag, slot \<open>RL = 2\<close> is written from \<open>rear_right\<close> and slot
  \<open>RR = 3\<close> from \<open>rear_left\<close>.  In the order front-right, front-left, rear-right, rear-left
  of the joint blocks the flags would be \<open>1, 0, 1, 0\<close>.
\<close>

theorem C2_scenario_contact_flags:
  "take 4 (drop 30 (fst (msgToTensor scenario_controller zero_goal scenario_msg))) =
     [f_zero, f_one, f_one, f_zero]"
proof -
  have l: "length (foot_contact scenario_controller) = 4"
    using scenario_sizes by (simp add: array_sizes_def)
  have "take 4 (drop 30 (fst (msgToTensor scenario_controller zero_goal scenario_msg))) =
        foot_contact (convertFootForceToContact scenario_controller (foot_force scenario_msg))"
    using scenario_sizes by (rule msgToTensor_flags)
  also have "\<dots> = [f_zero, f_one, f_one, f_zero]"
    by (subst convertFootForceToContact_eq [OF l])
      (simp add: convertFootForce_def scenario_msg_def scenario_controller_def init_fields)
  finally show ?thesis .
qed


subsection \<open>Ticks since the last contact\<close>

lemma funpow_updateCycles:
  assumes "array_sizes c"
  shows "array_sizes ((updateCyclesSinceLastContact ^^ N) c) \<and>
         foot_contact ((updateCyclesSinceLastContact ^^ N) c) = foot_contact c"
proof (induction N)
  case 0
  then show ?case using assms by simp
next
  case (Suc N)
  then show ?case using updateCycles_other(1,2) [of "(updateCyclesSinceLastContact ^^ N) c"]
    by simp
qed

lemma funpow_updateCycles_nth:
  assumes "array_sizes c" "i < 4"
  shows "cycles_since_last_contact ((updateCyclesSinceLastContact ^^ Suc N) c) ! i =
           (if fp_eq (foot_contact c ! i) f_one then f_zero
            else fadd (cycles_since_last_contact ((updateCyclesSinceLastContact ^^ N) c) ! i) f_one)"
  using funpow_updateCycles [OF assms(1), of N]
    updateCycles_nth [of "(updateCyclesSinceLastContact ^^ N) c" i] assms(2)
  by simp

lemma counter_in_contact:
  assumes "array_sizes c" "i < 4" "fp_eq (foot_contact c ! i) f_one" "0 < N"
  shows "cycles_since_last_contact ((updateCyclesSinceLastContact ^^ N) c) ! i = f_zero"
proof -
  from assms(4) obtain M where "N = Suc M" by (cases N) auto
  then show ?thesis using funpow_updateCycles_nth [OF assms(1,2), of M] assms(3) by simp
qed

lemma counter_no_contact:
  assumes "array_sizes c" "i < 4" "\<not> fp_eq (foot_contact c ! i) f_one"
    "cycles_since_last_contact c ! i = f_zero"
  shows "cycles_since_last_contact ((updateCyclesSinceLastContact ^^ N) c) ! i =
         fp_of_nat binary32 (min N (2 ^ 24))"
proof (induction N)
  case 0
  then show ?case using assms(4) by (simp add: lits)
next
  case (Suc N)
  show ?case
  proof (cases "N < 2 ^ 24")
    case True
    then have "min (Suc N) (2 ^ 24) = N + 1" "min N (2 ^ 24) = N" by simp_all
    then show ?thesis
      using funpow_updateCycles_nth [OF assms(1,2), of N] assms(3) Suc fadd_one_small [OF True]
      by simp
  next
    case False
    then have "min (Suc N) (2 ^ 24) = 2 ^ 24" "min N (2 ^ 24) = 2 ^ 24" by simp_all
    then show ?thesis
      using funpow_updateCycles_nth [OF assms(1,2), of N] assms(3) Suc fadd_one_saturated
      by simp
  qed
qed

text \<open>
  Claim C8, as amended.  One call of the tick-count update resets the counter of a leg
  whose flag compares equal to \<open>1.0\<close> to zero and adds \<open>1.0\<close> to it otherwise, in \<^verbatim>\<open>float\<close>
  arithmetic, and leaves the flags as they are.  So a leg in contact at every update has
  counter zero after each of them, and a leg never in contact over \<open>N\<close> updates, starting
  from zero, has counter \<open>N\<close> as long as \<open>N\<close> is at most \<open>2^24 = 16777216\<close>.
\<close>

theorem C8_cycles_simple:
  assumes "array_sizes c" "i < 4"
  shows "cycles_since_last_contact (updateCyclesSinceLastContact c) ! i =
           (if fp_eq (foot_contact c ! i) f_one then f_zero
            else fadd (cycles_since_last_contact c ! i) f_one) \<and>
         foot_contact (updateCyclesSinceLastContact c) = foot_contact c \<and>
         (fp_eq (foot_contact c ! i) f_one \<and> 0 < N \<longrightarrow>
            cycles_since_last_contact ((updateCyclesSinceLastContact ^^ N) c) ! i = f_zero) \<and>
         (\<not> fp_eq (foot_contact c ! i) f_one \<and> cycles_since_last_contact c ! i = f_zero \<and>
          N \<le> 2 ^ 24 \<longrightarrow>
            fp_val (cycles_since_last_contact ((updateCyclesSinceLastContact ^^ N) c) ! i) =
              Some (of_nat N))"
  using updateCycles_nth [OF assms] updateCycles_other(1) [OF assms(1)]
    counter_in_contact [OF assms, of N] counter_no_contact [OF assms, of N]
    fp_val_of_nat [of N]
  by (simp add: min_def)

lemma scenario_flags:
  "foot_contact scenario_controller ! 0 = f_zero"
  "cycles_since_last_contact scenario_controller ! 0 = f_zero"
  "\<not> fp_eq f_zero f_one"
  by (simp_all add: scenario_controller_def init_fields f_zero_def f_one_def)

text \<open>
  Claim C8 as stated, for every \<open>N\<close>.  The counter is a \<^verbatim>\<open>float\<close>: from \<open>16777216\<close> on, adding
  \<open>1.0\<close> rounds back to \<open>16777216\<close>, so after \<open>16777217\<close> updates without contact the counter
  is not \<open>16777217\<close>.
\<close>

theorem C8_counterexample:
  "fp_val (cycles_since_last_contact
     ((updateCyclesSinceLastContact ^^ 16777217) scenario_controller) ! 0) \<noteq> Some 16777217"
proof -
  have "cycles_since_last_contact
     ((updateCyclesSinceLastContact ^^ 16777217) scenario_controller) ! 0 =
     fp_of_nat binary32 (2 ^ 24)"
    using counter_no_contact [OF scenario_sizes, of 0 16777217] scenario_flags by simp
  moreover have "fp_val (fp_of_nat binary32 (2 ^ 24)) = Some 16777216"
    using fp_val_of_nat [of "2 ^ 24"] by simp
  ultimately show ?thesis by simp
qed

lemma scenario_contact_fields:
  "array_sizes scenario_contact"
  "foot_contact scenario_contact = [f_zero, f_one, f_one, f_zero]"
  "cycles_since_last_contact scenario_contact = [f_zero, f_zero, f_zero, f_zero]"
  "last_tick scenario_contact = [f_zero, f_zero, f_zero, f_zero]"
proof -
  have l: "length (foot_contact scenario_controller) = 4"
    using scenario_sizes by (simp add: array_sizes_def)
  show "array_sizes scenario_contact"
    unfolding scenario_contact_def using scenario_sizes by (rule convertFootForceToContact_sizes)
  show "foot_contact scenario_contact = [f_zero, f_one, f_one, f_zero]"
    unfolding scenario_contact_def
    by (subst convertFootForceToContact_eq [OF l])
      (simp add: convertFootForce_def scenario_msg_def scenario_controller_def init_fields)
  show "cycles_since_last_contact scenario_contact = [f_zero, f_zero, f_zero, f_zero]"
    unfolding scenario_contact_def
    by (subst convertFootForceToContact_eq [OF l])
      (simp add: scenario_controller_def init_fields eval_nat_numeral)
  show "last_tick scenario_contact = [f_zero, f_zero, f_zero, f_zero]"
    unfolding scenario_contact_def
    by (subst convertFootForceToContact_eq [OF l])
      (simp add: scenario_controller_def init_fields eval_nat_numeral)
qed

lemma flag_tests: "fp_eq f_one f_one" "\<not> fp_eq f_zero f_one"
  by (simp_all add: f_zero_def f_one_def)

text \<open>
  In the scenario after the contact classification slot 0 is off the ground and slot 1 is in
  contact: after three updates the counters are 3 and 0.
\<close>

theorem C8_witness:
  "array_sizes scenario_contact \<and> (0::nat) < 4 \<and> (1::nat) < 4 \<and> (0::nat) < 3 \<and>
   (3::nat) \<le> 2 ^ 24 \<and>
   \<not> fp_eq (foot_contact scenario_contact ! 0) f_one \<and>
   cycles_since_last_contact scenario_contact ! 0 = f_zero \<and>
   fp_eq (foot_contact scenario_contact ! 1) f_one \<and>
   fp_val (cycles_since_last_contact
     ((updateCyclesSinceLastContact ^^ 3) scenario_contact) ! 0) = Some 3 \<and>
   cycles_since_last_contact ((updateCyclesSinceLastContact ^^ 3) scenario_contact) ! 1 = f_zero"
proof -
  have 0: "(0::nat) < 4" and 1: "(1::nat) < 4" by simp_all
  show ?thesis
    using C8_cycles_simple [OF scenario_contact_fields(1) 0, of 3]
      C8_cycles_simple [OF scenario_contact_fields(1) 1, of 3]
    by (simp add: scenario_contact_fields flag_tests)
qed

subsection \<open>Time since the last contact\<close>

lemma updateCycles_tick_nth:
  assumes "array_sizes c" "i < 4"
  shows "cycles_since_last_contact (updateCyclesSinceLastContact_tick c tick) ! i =
           (if fp_eq (foot_contact c ! i) f_one then f_zero
            else fsub (fdiv (fp_of_nat binary32 (unat tick)) f_thousand) (last_tick c ! i))"
    and "last_tick (updateCyclesSinceLastContact_tick c tick) ! i =
           (if fp_eq (foot_contact c ! i) f_one
            then fdiv (fp_of_nat binary32 (unat tick)) f_thousand
            else last_tick c ! i)"
proof -
  from assms(1) obtain a0 a1 a2 a3 c0 c1 c2 c3 t0 t1 t2 t3
    where *: "foot_contact c = [a0, a1, a2, a3]" "cycles_since_last_contact c = [c0, c1, c2, c3]"
      "last_tick c = [t0, t1, t2, t3]"
    using list4 [of "foot_contact c"] list4 [of "cycles_since_last_contact c"]
      list4 [of "last_tick c"]
    by (auto simp: array_sizes_def)
  from assms(2) show "cycles_since_last_contact (updateCyclesSinceLastContact_tick c tick) ! i =
           (if fp_eq (foot_contact c ! i) f_one then f_zero
            else fsub (fdiv (fp_of_nat binary32 (unat tick)) f_thousand) (last_tick c ! i))"
    unfolding less4
    by (elim disjE) (simp_all add: updateCyclesSinceLastContact_tick_def Let_def upt4 tick_step_def *)
  from assms(2) show "last_tick (updateCyclesSinceLastContact_tick c tick) ! i =
           (if fp_eq (foot_contact c ! i) f_one
            then fdiv (fp_of_nat binary32 (unat tick)) f_thousand
            else last_tick c ! i)"
    unfolding less4
    by (elim disjE) (simp_all add: updateCyclesSinceLastContact_tick_def Let_def upt4 tick_step_def *)
qed

lemma rne_positive:
  assumes "2 ^ k \<le> m"
  shows "0 < rne m k"
proof -
  have "1 \<le> m div 2 ^ k" using assms by (simp add: div_greater_zero_iff Suc_le_eq)
  then show ?thesis by (auto simp: rne_def Let_def)
qed

lemma fp_round_negative:
  assumes "0 < m" "emin F \<le> e" "0 < prec F"
  shows "fp_lt (fp_round F True m e) (Finite False 0 z)"
proof -
  define a where "a = floorlog 2 m"
  have m: "2 ^ (a - 1) \<le> m" using floorlog_bounds [of m 2] assms(1) by (simp add: a_def)
  have a: "0 < a" using assms(1) floorlog_eq_zero_iff [of 2 m] by (auto simp: a_def)
  show ?thesis
  proof (cases "max (e + int a - int (prec F)) (emin F) \<le> e")
    case True
    then show ?thesis using assms(1)
      by (simp add: fp_round_def Let_def with_sign_def flip: a_def)
  next
    case False
    then have k: "nat (max (e + int a - int (prec F)) (emin F) - e) = a - prec F" "prec F < a"
      using assms(2) by (auto simp: max_def split: if_splits)
    have "(2::nat) ^ (a - prec F) \<le> 2 ^ (a - 1)"
      using assms(3) by (intro power_increasing) auto
    then have "2 ^ (a - prec F) \<le> m" using m by (rule order_trans)
    then have "0 < rne m (a - prec F)" by (rule rne_positive)
    then show ?thesis using False assms(1)
      by (simp add: fp_round_def Let_def with_sign_def k flip: a_def)
  qed
qed

lemma fsub_negative:
  assumes "fp_lt x y" "fp_in_format F x" "fp_in_format F y" "0 < prec F"
  shows "fp_lt (fp_sub F x y) (Finite False 0 z)"
proof (cases x)
  case x: (Finite s m e)
  show ?thesis
  proof (cases y)
    case y: (Finite t n f)
    define g where "g = min e f"
    define c where "c = with_sign s (m * 2 ^ nat (e - g)) + with_sign (\<not> t) (n * 2 ^ nat (f - g))"
    have "with_sign (\<not> t) (n * 2 ^ nat (f - g)) = - with_sign t (n * 2 ^ nat (f - g))"
      by (simp add: with_sign_def)
    then have neg: "c < 0" using assms(1) by (simp add: x y c_def g_def Let_def)
    have g: "emin F \<le> g" using assms(2,3) by (simp add: x y g_def fp_in_format_def)
    have "fp_sub F x y = fp_round F True (nat \<bar>c\<bar>) g"
      using neg by (simp add: x y fp_sub_def Let_def flip: g_def c_def)
    moreover have "0 < nat \<bar>c\<bar>" using neg by simp
    ultimately show ?thesis using fp_round_negative [OF _ g assms(4)] by simp
  next
    case (Infinity t)
    then show ?thesis using assms(1) by (simp add: x fp_sub_def)
  next
    case NaN
    then show ?thesis using assms(1) by (simp add: x)
  qed
next
  case x: (Infinity s)
  then show ?thesis using assms(1) by (cases y) (auto simp: fp_sub_def)
next
  case NaN
  then show ?thesis using assms(1) by simp
qed

lemma rne_upper:
  assumes "m < 2 ^ (k + p)"
  shows "rne m k \<le> 2 ^ p"
proof -
  have "m div 2 ^ k < 2 ^ p"
    using assms by (simp add: less_mult_imp_div_less power_add mult.commute)
  then show ?thesis by (auto simp: rne_def Let_def)
qed

lemma rne_lower:
  assumes "2 ^ (k + p) \<le> m"
  shows "2 ^ p \<le> rne m k"
proof -
  have "2 ^ p * 2 ^ k \<le> m" using assms by (simp add: power_add mult.commute)
  then have "2 ^ p \<le> m div 2 ^ k" by (simp add: less_eq_div_iff_mult_less_eq)
  then show ?thesis by (auto simp: rne_def Let_def)
qed

lemma fp_round_in_format:
  assumes "0 < prec F" "emin F \<le> emax F"
  shows "fp_in_format F (fp_round F s m e)"
proof (cases "m = 0")
  case True
  then show ?thesis using assms by (simp add: fp_round_def fp_in_format_def)
next
  case False
  define a where "a = floorlog 2 m"
  define p where "p = prec F"
  define e' where "e' = max (e + int a - int p) (emin F)"
  have lo: "2 ^ (a - 1) \<le> m" and hi: "m < 2 ^ a"
    using floorlog_bounds [of m 2] False by (simp_all add: a_def)
  have a: "0 < a" using False floorlog_eq_zero_iff [of 2 m] by (auto simp: a_def)
  have p: "0 < p" using assms(1) by (simp add: p_def)
  show ?thesis
  proof (cases "e' \<le> e")
    case True
    define k where "k = nat (e - e')"
    have ap: "a + k \<le> p" using True unfolding e'_def k_def by linarith
    have "m * 2 ^ k < 2 ^ a * 2 ^ k" using hi by simp
    also have "\<dots> \<le> 2 ^ p" using ap by (simp flip: power_add)
    finally have 1: "m * 2 ^ k < 2 ^ p" .
    have 2: "2 ^ (p - 1) \<le> m * 2 ^ k" if "e' \<noteq> emin F"
    proof -
      from that have "a + k = p" using True unfolding e'_def k_def by linarith
      then have "(2::nat) ^ (p - 1) = 2 ^ (a - 1) * 2 ^ k" using a by (simp flip: power_add)
      then show ?thesis using lo by simp
    qed
    have 3: "emin F \<le> e'" by (simp add: e'_def)
    show ?thesis
      using True False 1 2 3
      by (auto simp: fp_round_def Let_def fp_in_format_def simp flip: a_def p_def e'_def k_def)
  next
    case False
    define k where "k = nat (e' - e)"
    have ka: "a \<le> k + p" using False unfolding e'_def k_def by linarith
    have "m < 2 ^ (k + p)" using hi ka
      by (meson less_le_trans one_le_numeral power_increasing)
    then have 1: "rne m k \<le> 2 ^ p" by (rule rne_upper)
    have 2: "2 ^ (p - 1) \<le> rne m k" if "e' \<noteq> emin F"
    proof -
      from that have "a = k + p" using False unfolding e'_def k_def by linarith
      then have "a - 1 = k + (p - 1)" using p by simp
      then have "2 ^ (k + (p - 1)) \<le> m" using lo by simp
      then show ?thesis by (rule rne_lower)
    qed
    have 3: "emin F \<le> e'" by (simp add: e'_def)
    have 4: "(2::nat) ^ (p - 1) < 2 ^ p" using p by simp
    show ?thesis
      using False \<open>m \<noteq> 0\<close> 1 2 3 4 assms(2)
      by (auto simp: fp_round_def Let_def fp_in_format_def
          simp flip: a_def p_def e'_def k_def)
  qed
qed

lemma tick_ms_in_format:
  "fp_in_format binary32 (fdiv x f_thousand)"
proof (cases x)
  case (Finite s m e)
  have "0 < prec binary32" "emin binary32 \<le> emax binary32" by (simp_all add: binary32_def)
  from fp_round_in_format [OF this] show ?thesis
    by (simp add: Finite f_thousand_def Let_def)
qed (simp_all add: f_thousand_def fp_in_format_def)

text \<open>
  Claim C9.  The timestamp update computes the tick time in milliseconds as
  \<^verbatim>\<open>static_cast<float>(tick) / 1000.0f\<close>.  For a leg whose flag compares equal to \<open>1.0\<close> it
  stores that time in \<open>last_tick\<close> and resets the duration to zero; for any other leg it
  sets the duration to the tick time minus the stored timestamp and keeps the timestamp.
  Nothing clamps the difference: when the tick time is less than the stored timestamp (a
  \<^verbatim>\<open>float\<close> value, as every value the code stores there is) the duration is negative.
\<close>

theorem C9_cycles_by_time:
  assumes "array_sizes c" "i < 4"
  shows
    "(fp_eq (foot_contact c ! i) f_one \<longrightarrow>
        last_tick (updateCyclesSinceLastContact_tick c tick) ! i =
          fdiv (fp_of_nat binary32 (unat tick)) f_thousand \<and>
        cycles_since_last_contact (updateCyclesSinceLastContact_tick c tick) ! i = f_zero) \<and>
     (\<not> fp_eq (foot_contact c ! i) f_one \<longrightarrow>
        cycles_since_last_contact (updateCyclesSinceLastContact_tick c tick) ! i =
          fsub (fdiv (fp_of_nat binary32 (unat tick)) f_thousand) (last_tick c ! i) \<and>
        last_tick (updateCyclesSinceLastContact_tick c tick) ! i = last_tick c ! i) \<and>
     (\<not> fp_eq (foot_contact c ! i) f_one \<and> fp_in_format binary32 (last_tick c ! i) \<and>
      fp_lt (fdiv (fp_of_nat binary32 (unat tick)) f_thousand) (last_tick c ! i) \<longrightarrow>
        fp_lt (cycles_since_last_contact (updateCyclesSinceLastContact_tick c tick) ! i) f_zero)"
  using updateCycles_tick_nth [OF assms, of tick]
    fsub_negative [of "fdiv (fp_of_nat binary32 (unat tick)) f_thousand" "last_tick c ! i"
      binary32 "- 149"] tick_ms_in_format [of "fp_of_nat binary32 (unat tick)"]
  by (simp add: f_zero_def binary32_def)

lemma tick_ms_values:
  "fdiv (fp_of_nat binary32 5000) f_thousand = f_five"
  "fdiv (fp_of_nat binary32 1000) f_thousand = f_one"
  "fsub f_one f_five = Finite True 8388608 (- 21)"
  "fp_val (Finite True 8388608 (- 21)) = Some (- 4)"
  "fp_lt f_one f_five" "fp_lt (Finite True 8388608 (- 21)) f_zero"
  "fp_in_format binary32 f_five" "fp_val f_five = Some 5"
  by (simp_all add: fp_eval f_five_def fp_in_format_def)

lemma stance_fields:
  "array_sizes stance_controller"
  "foot_contact stance_controller = [f_one, f_one, f_one, f_one]"
proof -
  have l: "length (foot_contact scenario_controller) = 4"
    using scenario_sizes by (simp add: array_sizes_def)
  show "array_sizes stance_controller"
    unfolding stance_controller_def using scenario_sizes by (rule convertFootForceToContact_sizes)
  show "foot_contact stance_controller = [f_one, f_one, f_one, f_one]"
    unfolding stance_controller_def
    by (subst convertFootForceToContact_eq [OF l])
      (simp add: convertFootForce_def all_forces_def scenario_controller_def init_fields)
qed

lemma swing_fields:
  "array_sizes swing_controller"
  "foot_contact swing_controller = [f_zero, f_zero, f_zero, f_zero]"
  "last_tick swing_controller ! 0 = f_five"
proof -
  let ?c = "updateCyclesSinceLastContact_tick stance_controller 5000"
  have s: "array_sizes ?c" using stance_fields(1) by (rule updateCycles_tick_other)
  then have l: "length (foot_contact ?c) = 4" by (simp add: array_sizes_def)
  have "foot_contact_threshold ?c = foot_contact_threshold stance_controller"
    using fold_tick_step_fields [of _ "[0..<length (foot_contact stance_controller)]"
        stance_controller]
    by (simp add: updateCyclesSinceLastContact_tick_def Let_def)
  also have "\<dots> = foot_contact_threshold scenario_controller"
    unfolding stance_controller_def using scenario_sizes
    by (rule convertFootForceToContact_sizes)
  finally have t: "foot_contact_threshold ?c = 50"
    by (simp add: scenario_controller_def init_fields)
  show "array_sizes swing_controller"
    unfolding swing_controller_def using s by (rule convertFootForceToContact_sizes)
  show "foot_contact swing_controller = [f_zero, f_zero, f_zero, f_zero]"
    unfolding swing_controller_def
    by (subst convertFootForceToContact_eq [OF l])
      (simp add: convertFootForce_def all_forces_def t)
  have "last_tick swing_controller ! 0 = last_tick ?c ! 0"
    unfolding swing_controller_def by (simp add: convertFootForceToContact_sizes [OF s])
  also have "\<dots> = f_five"
    using updateCycles_tick_nth(2) [OF stance_fields(1), of 0 5000]
    by (simp add: stance_fields flag_tests tick_ms_values)
  finally show "last_tick swing_controller ! 0 = f_five" .
qed

text \<open>
  A leg in contact at tick 5000 records the timestamp 5; with the leg off the ground at tick
  1000 the duration is \<open>1 - 5 = -4\<close>.
\<close>

theorem C9_witness:
  "array_sizes stance_controller \<and> array_sizes swing_controller \<and> (0::nat) < 4 \<and>
   fp_eq (foot_contact stance_controller ! 0) f_one \<and>
   \<not> fp_eq (foot_contact swing_controller ! 0) f_one \<and>
   fp_in_format binary32 (last_tick swing_controller ! 0) \<and>
   fp_lt (fdiv (fp_of_nat binary32 (unat (1000 :: 32 word))) f_thousand)
     (last_tick swing_controller ! 0) \<and>
   fp_val (last_tick (updateCyclesSinceLastContact_tick stance_controller 5000) ! 0) = Some 5 \<and>
   cycles_since_last_contact (updateCyclesSinceLastContact_tick stance_controller 5000) ! 0 =
     f_zero \<and>
   fp_val (cycles_since_last_contact (updateCyclesSinceLastContact_tick swing_controller 1000) ! 0)
     = Some (- 4) \<and>
   fp_lt (cycles_since_last_contact (updateCyclesSinceLastContact_tick swing_controller 1000) ! 0)
     f_zero"
proof -
  have 0: "(0::nat) < 4" by simp
  show ?thesis
    using C9_cycles_by_time [OF stance_fields(1) 0, of 5000]
      C9_cycles_by_time [OF swing_fields(1) 0, of 1000]
    by (simp add: stance_fields swing_fields flag_tests tick_ms_values with_sign_def)
qed

subsection \<open>The action kept for the next tick\<close>

lemma msgToTensor_kept:
  assumes "array_sizes c"
  shows "scaled_factor (snd (msgToTensor c goal msg)) = scaled_factor c"
    and "nominal (snd (msgToTensor c goal msg)) = nominal c"
proof -
  let ?c1 = "convertFootForceToContact c (foot_force msg)"
  have s1: "array_sizes ?c1" using assms by (rule convertFootForceToContact_sizes)
  show "scaled_factor (snd (msgToTensor c goal msg)) = scaled_factor c"
    unfolding msgToTensor_snd [OF assms]
    using updateCycles_other(7) [OF s1] convertFootForceToContact_sizes(8) [OF assms] by simp
  show "nominal (snd (msgToTensor c goal msg)) = nominal c"
    unfolding msgToTensor_snd [OF assms]
    using updateCycles_other(3) [OF s1] convertFootForceToContact_sizes(5) [OF assms] by simp
qed

lemma actionToMsg_Inr: "12 \<le> length action \<Longrightarrow> \<exists>cmd. actionToMsg c action = Inr cmd"
  by (simp add: actionToMsg_def)

lemma copy_to_last_action_twelve:
  assumes "array_sizes c" "length xs = 12"
  shows "copy_to_last_action xs c = c\<lparr>last_action := xs\<rparr>"
  using assms by (simp add: copy_to_last_action_def Let_def array_sizes_def)

lemma copy_to_last_action_thirteen:
  assumes "array_sizes c" "length xs = 13"
  shows "foot_contact (copy_to_last_action xs c) ! 0 = xs ! 12"
    and "last_action (copy_to_last_action xs c) = take 12 xs"
    and "nominal (copy_to_last_action xs c) = nominal c"
proof -
  from assms(1) obtain a b c' d where f: "foot_contact c = [a, b, c', d]"
    using list4 [of "foot_contact c"] by (auto simp: array_sizes_def)
  show "foot_contact (copy_to_last_action xs c) ! 0 = xs ! 12"
    and "last_action (copy_to_last_action xs c) = take 12 xs"
    and "nominal (copy_to_last_action xs c) = nominal c"
    using assms by (simp_all add: copy_to_last_action_def Let_def array_sizes_def f nth_append
        hd_drop_conv_nth take_Suc_conv_app_nth)
qed

lemma modelForward_twelve:
  assumes "array_sizes c" "length (forward (fst (msgToTensor c goal msg))) = 12"
  shows "\<exists>cmd. modelForward forward c goal msg =
     Inr ((snd (msgToTensor c goal msg))
            \<lparr>last_action :=
               map (\<lambda>i. blend (snd (msgToTensor c goal msg)) (fst (msgToTensor c goal msg) ! i)
                          (forward (fst (msgToTensor c goal msg)) ! i)) [0..<12]\<rparr>,
          cmd, fst (msgToTensor c goal msg))"
proof -
  obtain state c1 where m: "msgToTensor c goal msg = (state, c1)" by (cases "msgToTensor c goal msg")
  have s1: "array_sizes c1" using msgToTensor_inv(1) [OF assms(1), of goal msg] by (simp add: m)
  have 12: "length (forward state) = 12" using assms(2) by (simp add: m)
  define av where "av = map (\<lambda>i. blend c1 (state ! i) (forward state ! i)) [0..<12]"
  have l: "length av = 12" by (simp add: av_def)
  from actionToMsg_Inr [of av "c1\<lparr>last_action := av\<rparr>"] l
  obtain cmd where a: "actionToMsg (c1\<lparr>last_action := av\<rparr>) av = Inr cmd" by auto
  have "modelForward forward c goal msg =
        (case actionToMsg (copy_to_last_action av c1) av of
           Inl e \<Rightarrow> Inl e | Inr cmd \<Rightarrow> Inr (copy_to_last_action av c1, cmd, state))"
    unfolding modelForward_def m prod.case Let_def 12 av_def ..
  also have "\<dots> = Inr (c1\<lparr>last_action := av\<rparr>, cmd, state)"
    by (simp only: copy_to_last_action_twelve [OF s1 l] a sum.case)
  finally show ?thesis by (simp only: m fst_conv snd_conv av_def) blast
qed

text \<open>A forward pass that returns exactly twelve values leaves the contact flags as the
  feature vector set them, \<open>0.0\<close> or \<open>1.0\<close> each.\<close>

lemma modelForward_twelve_flags:
  assumes "array_sizes c" "length (forward (fst (msgToTensor c goal msg))) = 12"
    "modelForward forward c goal msg = Inr (c', cmd, tensor)"
  shows "array_sizes c'" and "binary_flags c'"
proof -
  from modelForward_twelve [of c forward goal msg, OF assms(1,2)] assms(3)
  have c': "c' = (snd (msgToTensor c goal msg))
            \<lparr>last_action :=
               map (\<lambda>i. blend (snd (msgToTensor c goal msg)) (fst (msgToTensor c goal msg) ! i)
                          (forward (fst (msgToTensor c goal msg)) ! i)) [0..<12]\<rparr>"
    by auto
  show "array_sizes c'"
    using msgToTensor_inv(1) [OF assms(1), of goal msg]
    by (subst c') (simp add: array_sizes_def)
  show "binary_flags c'"
    using msgToTensor_inv(2) [OF assms(1), of goal msg]
    by (subst c') (simp add: binary_flags_def)
qed

lemma scenario_blend:
  "float_of_double (dadd (double_of_float (fsub f_tenth f_zero))
     (dmul (double_of_float f_one) d_quarter)) = Finite False 11744051 (- 25)"
  "float_of_double (dadd (double_of_float (float_of_double d_zero))
     (dmul (double_of_float f_one) d_quarter)) = Finite False 8388608 (- 25)"
  "fp_val (Finite False 11744051 (- 25)) = Some (11744051 / 33554432)"
  "fp_val (Finite False 8388608 (- 25)) = Some (1 / 4)"
  by (simp_all add: fp_eval f_tenth_def)

lemma scenario_angles:
  assumes "i < 12"
  shows "joint_angles (motor_state scenario_msg) ! i = f_tenth"
    and "nominal scenario_controller ! i = f_zero"
proof -
  show "joint_angles (motor_state scenario_msg) ! i = f_tenth"
    using assms unfolding less12
    by (elim disjE) (simp_all add: joint_angles_def scenario_msg_def uniform_joints_def Let_def)
  show "nominal scenario_controller ! i = f_zero"
    using assms by (simp add: scenario_controller_def init_fields)
qed

lemma scenario_kept: "scaled_factor scenario_controller = d_quarter"
  by (simp add: scenario_controller_def init_fields)

lemma scenario_blended:
  assumes "i < 12"
  shows "blend (snd (msgToTensor scenario_controller zero_goal scenario_msg))
           (fst (msgToTensor scenario_controller zero_goal scenario_msg) ! i) f_one =
         Finite False 11744051 (- 25)"
  using msgToTensor_position [OF scenario_sizes assms, of zero_goal scenario_msg]
  by (simp add: blend_def msgToTensor_kept [OF scenario_sizes] scenario_angles [OF assms]
      scenario_kept scenario_blend)

text \<open>
  Claim C6, evaluated on the code.  In the scenario, with a network that returns \<open>1.0\<close> for
  each of the twelve joints, \<open>modelForward\<close> returns and \<open>last_action\<close> holds the blended value
  \<open>0.1 + 1.0 * 0.25\<close>, rounded to \<^verbatim>\<open>float\<close>, for every joint: the blend overwrites
  \<open>action_vec\<close> in place before the copy, so what is kept for the next tick is not the
  output of the network.
\<close>

theorem C6_scenario_last_action:
  "isl (modelForward constant_policy scenario_controller zero_goal scenario_msg) = False \<and>
   last_action (fst (projr
     (modelForward constant_policy scenario_controller zero_goal scenario_msg))) =
     replicate 12 (Finite False 11744051 (- 25)) \<and>
   constant_policy (fst (msgToTensor scenario_controller zero_goal scenario_msg)) =
     replicate 12 f_one \<and>
   fp_val (Finite False 11744051 (- 25)) = Some (11744051 / 33554432) \<and>
   fp_val f_one = Some 1"
proof -
  let ?state = "fst (msgToTensor scenario_controller zero_goal scenario_msg)"
  let ?c1 = "snd (msgToTensor scenario_controller zero_goal scenario_msg)"
  have 12: "length (constant_policy ?state) = 12"
    by (simp add: constant_policy_def)
  from modelForward_twelve [of scenario_controller constant_policy zero_goal scenario_msg,
      OF scenario_sizes 12]
  obtain cmd where
    m: "modelForward constant_policy scenario_controller zero_goal scenario_msg =
        Inr (?c1\<lparr>last_action :=
                  map (\<lambda>i. blend ?c1 (?state ! i) (constant_policy ?state ! i)) [0..<12]\<rparr>,
             cmd, ?state)" by blast
  have "map (\<lambda>i. blend ?c1 (?state ! i) (constant_policy ?state ! i)) [0..<12] =
        map (\<lambda>i. Finite False 11744051 (- 25)) [0..<12]"
    by (rule map_cong) (simp_all add: constant_policy_def scenario_blended)
  also have "\<dots> = replicate 12 (Finite False 11744051 (- 25))"
    by (simp add: map_replicate_const)
  finally show ?thesis
    by (simp add: m constant_policy_def scenario_blend f_one_def with_sign_def)
qed

subsection \<open>A network that returns more than twelve values\<close>

lemma msgToTensor_orientation:
  assumes "array_sizes c"
  shows "fst (msgToTensor c goal msg) ! 12 = float_of_double (quat_x (orientation (imu msg)))"
  by (simp add: msgToTensor_eq [OF assms] nth_append pushJointPositions_length)

lemma modelForward_thirteen:
  assumes "array_sizes c" "length (forward (fst (msgToTensor c goal msg))) = 13"
  shows "\<exists>c' cmd. modelForward forward c goal msg = Inr (c', cmd, fst (msgToTensor c goal msg)) \<and>
     foot_contact c' ! 0 =
       blend (snd (msgToTensor c goal msg)) (fst (msgToTensor c goal msg) ! 12)
         (forward (fst (msgToTensor c goal msg)) ! 12)"
proof -
  obtain state c1 where m: "msgToTensor c goal msg = (state, c1)" by (cases "msgToTensor c goal msg")
  have s1: "array_sizes c1" using msgToTensor_inv(1) [OF assms(1), of goal msg] by (simp add: m)
  have 13: "length (forward state) = 13" using assms(2) by (simp add: m)
  define av where "av = map (\<lambda>i. blend c1 (state ! i) (forward state ! i)) [0..<13]"
  have l: "length av = 13" by (simp add: av_def)
  from actionToMsg_Inr [of av "copy_to_last_action av c1"] l
  obtain cmd where a: "actionToMsg (copy_to_last_action av c1) av = Inr cmd" by auto
  have "modelForward forward c goal msg =
        (case actionToMsg (copy_to_last_action av c1) av of
           Inl e \<Rightarrow> Inl e | Inr cmd \<Rightarrow> Inr (copy_to_last_action av c1, cmd, state))"
    unfolding modelForward_def m prod.case Let_def 13 av_def ..
  also have "\<dots> = Inr (copy_to_last_action av c1, cmd, state)"
    by (simp only: a sum.case)
  finally have r: "modelForward forward c goal msg = Inr (copy_to_last_action av c1, cmd, state)" .
  have "av ! 12 = blend c1 (state ! 12) (forward state ! 12)"
    unfolding av_def by (subst nth_map) simp_all
  then have "foot_contact (copy_to_last_action av c1) ! 0 =
        blend c1 (state ! 12) (forward state ! 12)"
    by (simp only: copy_to_last_action_thirteen(1) [OF s1 l])
  with r show ?thesis by (simp only: m fst_conv snd_conv) blast
qed

text \<open>
  Claim C10, evaluated on the code.  In the scenario, with a network that returns thirteen
  values, each \<open>1.0\<close>, \<open>modelForward\<close> returns and the first contact flag holds \<open>0.25\<close>: the
  thirteenth blended value, orientation \<open>x\<close> plus \<open>1.0 * 0.25\<close>, which the copy wrote past the
  twelve entries of \<open>last_action\<close>.  The flag is neither \<open>0.0\<close> nor \<open>1.0\<close>.
\<close>

theorem C10_flag_overwritten:
  "isl (modelForward long_policy scenario_controller zero_goal scenario_msg) = False \<and>
   foot_contact (fst (projr
     (modelForward long_policy scenario_controller zero_goal scenario_msg))) ! 0 =
     Finite False 8388608 (- 25) \<and>
   fp_val (Finite False 8388608 (- 25)) = Some (1 / 4) \<and>
   fp_val f_zero = Some 0 \<and> fp_val f_one = Some 1"
proof -
  let ?state = "fst (msgToTensor scenario_controller zero_goal scenario_msg)"
  have 13: "length (long_policy ?state) = 13"
    by (simp add: long_policy_def)
  from modelForward_thirteen [of scenario_controller long_policy zero_goal scenario_msg,
      OF scenario_sizes 13]
  obtain c' cmd where
    m: "modelForward long_policy scenario_controller zero_goal scenario_msg =
        Inr (c', cmd, ?state)" and
    f: "foot_contact c' ! 0 =
        blend (snd (msgToTensor scenario_controller zero_goal scenario_msg)) (?state ! 12)
          (long_policy ?state ! 12)" by blast
  have "foot_contact c' ! 0 = Finite False 8388608 (- 25)"
    by (simp add: f blend_def msgToTensor_kept [OF scenario_sizes] scenario_kept
        msgToTensor_orientation [OF scenario_sizes] scenario_msg_def identity_orientation_def
        long_policy_def scenario_blend)
  then show ?thesis
    by (simp add: m scenario_blend f_zero_def f_one_def with_sign_def)
qed

section \<open>The length of the gravity vector\<close>

subsection \<open>The error of one rounding\<close>

text \<open>
  Rounding to nearest moves a number by at most half a unit in the last place: by at most
  the fraction \<open>2\<^sup>-\<^sup>p\<close> of its magnitude for a normal result, and by at most half of the
  least positive value of the format for a subnormal one.  A number of magnitude at most
  \<open>2\<^sup>b\<close>, with \<open>b\<close> two below the top of the format, does not round to an infinity.
\<close>

lemma fp_real_Finite: "fp_real (Finite s m e) = real_of_int (with_sign s m) * 2 powi e"
  by (simp add: fp_real_def power_int_def of_rat_mult of_rat_divide of_rat_power
      of_rat_inverse inverse_eq_divide power_one_over)

lemma rne_err:
  assumes "0 < k"
  shows "2 * \<bar>real (rne m k) * 2 ^ k - real m\<bar> \<le> 2 ^ k"
proof -
  define d where "d = m div 2 ^ k"
  define r where "r = m mod 2 ^ k"
  have m: "m = d * 2 ^ k + r" using div_mult_mod_eq [of m "2 ^ k"] by (simp add: d_def r_def)
  have r: "r < 2 ^ k" by (simp add: r_def)
  have rm: "real m = real d * 2 ^ k + real r" by (subst m) simp
  have rr: "real r < 2 ^ k" using r by (metis of_nat_less_iff of_nat_numeral of_nat_power)
  show ?thesis
  proof (cases "2 ^ k < 2 * r \<or> (2 * r = 2 ^ k \<and> odd d)")
    case True
    then have 1: "rne m k = d + 1" by (simp add: rne_def Let_def d_def r_def)
    from True have "2 ^ k \<le> 2 * r" by auto
    then have "real (2 ^ k) \<le> real (2 * r)" by (simp only: of_nat_le_iff)
    then have "2 ^ k \<le> 2 * real r" by simp
    then show ?thesis using rr by (simp add: 1 rm algebra_simps)
  next
    case False
    then have 1: "rne m k = d" by (simp add: rne_def Let_def d_def r_def)
    from False have "2 * r \<le> 2 ^ k" by auto
    then have "real (2 * r) \<le> real (2 ^ k)" by (simp only: of_nat_le_iff)
    then have "2 * real r \<le> 2 ^ k" by simp
    then show ?thesis by (simp add: 1 rm algebra_simps)
  qed
qed

lemma pow2_shift: "g \<le> e \<Longrightarrow> (2::real) ^ nat (e - g) * 2 powi g = 2 powi e"
proof -
  assume "g \<le> e"
  then have "(2::real) ^ nat (e - g) = 2 powi (e - g)" by (simp add: power_int_def)
  then show ?thesis by (simp flip: power_int_add)
qed

lemma fp_round_err:
  assumes p: "0 < prec F" and mm: "emin F < emax F"
    and b: "real m * 2 powi e \<le> 2 powi b" "b + 2 \<le> emax F + int (prec F)"
  shows "\<exists>n f. fp_round F s m e = Finite s n f \<and>
           \<bar>real n * 2 powi f - real m * 2 powi e\<bar>
             \<le> real m * 2 powi e / 2 ^ prec F + 2 powi emin F / 2"
proof (cases "m = 0")
  case True
  have "0 \<le> (2::real) powi emin F / 2" by simp
  then show ?thesis using True by (simp add: fp_round_def)
next
  case False
  define a where "a = floorlog 2 m"
  define q where "q = prec F"
  define e' where "e' = max (e + int a - int q) (emin F)"
  have lo: "2 ^ (a - 1) \<le> m" and hi: "m < 2 ^ a"
    using floorlog_bounds [of m 2] False by (simp_all add: a_def)
  have a: "0 < a" using False floorlog_eq_zero_iff [of 2 m] by (auto simp: a_def)
  have q: "0 < q" using p by (simp add: q_def)
  have rlo: "(2::real) ^ (a - 1) \<le> real m"
    using lo by (metis of_nat_le_iff of_nat_numeral of_nat_power)
  have ea: "e + int a - 1 \<le> b"
  proof (rule ccontr)
    assume "\<not> e + int a - 1 \<le> b"
    then have "b < e + int a - 1" by simp
    then have "(2::real) powi b < 2 powi (e + int a - 1)"
      by (rule power_int_strict_increasing) simp
    also have "\<dots> = 2 ^ (a - 1) * 2 powi e"
      using a by (simp add: power_int_add power_int_diff power_diff algebra_simps)
    also have "\<dots> \<le> real m * 2 powi e" using rlo by (simp add: mult_right_mono)
    finally show False using b(1) by simp
  qed
  have fin: "e' + 1 \<le> emax F" using ea b(2) mm by (simp add: e'_def q_def)
  have half: "(2::real) powi e' / 2 \<le> real m * 2 powi e / 2 ^ q + 2 powi emin F / 2"
  proof (cases "e' = emin F")
    case True
    have "0 \<le> real m * 2 powi e / 2 ^ q" by simp
    then show ?thesis using True by simp
  next
    case False
    then have e'eq: "e' = e + int a - int q" by (simp add: e'_def max_def split: if_splits)
    have "(2::real) powi (e + int a - int q) / 2 = 2 ^ (a - 1) * 2 powi e / 2 ^ q"
      using a by (simp add: power_int_add power_int_diff power_diff algebra_simps)
    then have "(2::real) powi e' / 2 = 2 ^ (a - 1) * 2 powi e / 2 ^ q"
      by (simp only: e'eq)
    also have "\<dots> \<le> real m * 2 powi e / 2 ^ q"
      using rlo by (simp add: mult_right_mono divide_right_mono)
    also have "\<dots> \<le> real m * 2 powi e / 2 ^ q + 2 powi emin F / 2" by simp
    finally show ?thesis .
  qed
  show ?thesis
  proof (cases "e' \<le> e")
    case True
    have "real (m * 2 ^ nat (e - e')) * 2 powi e' = real m * (2 ^ nat (e - e') * 2 powi e')"
      by simp
    also have "\<dots> = real m * 2 powi e" by (simp only: pow2_shift [OF True])
    finally have ex: "real (m * 2 ^ nat (e - e')) * 2 powi e' = real m * 2 powi e" .
    have "0 \<le> real m * 2 powi e / 2 ^ q + 2 powi emin F / 2"
      by (simp add: add_nonneg_nonneg)
    then have "\<bar>real (m * 2 ^ nat (e - e')) * 2 powi e' - real m * 2 powi e\<bar>
       \<le> real m * 2 powi e / 2 ^ q + 2 powi emin F / 2" by (simp only: ex)
    moreover have "fp_round F s m e = Finite s (m * 2 ^ nat (e - e')) e'"
      using True False fin
      by (simp add: fp_round_def Let_def flip: a_def q_def e'_def)
    ultimately show ?thesis unfolding q_def by blast
  next
    case ne: False
    define k where "k = nat (e' - e)"
    define d where "d = rne m k"
    have k: "0 < k" using ne by (simp add: k_def)
    have sh: "(2::real) ^ k * 2 powi e = 2 powi e'"
      using pow2_shift [of e e'] ne by (simp add: k_def)
    have "real d * 2 powi e' - real m * 2 powi e = (real d * 2 ^ k - real m) * 2 powi e"
      by (simp add: algebra_simps flip: sh)
    then have "\<bar>real d * 2 powi e' - real m * 2 powi e\<bar> = \<bar>real d * 2 ^ k - real m\<bar> * 2 powi e"
      by (simp add: abs_mult)
    also have "\<dots> \<le> 2 ^ k / 2 * 2 powi e"
      using rne_err [OF k, of m] by (intro mult_right_mono) (simp_all add: d_def)
    also have "\<dots> = 2 powi e' / 2" by (simp flip: sh)
    finally have err: "\<bar>real d * 2 powi e' - real m * 2 powi e\<bar>
       \<le> real m * 2 powi e / 2 ^ q + 2 powi emin F / 2" using half by (rule order_trans)
    have carry: "real (2 ^ (q - 1)) * 2 powi (e' + 1) = real d * 2 powi e'" if "d = 2 ^ q"
    proof -
      from q obtain q' where "q = Suc q'" by (cases q) auto
      then show ?thesis using that by (simp add: power_int_add)
    qed
    show ?thesis
    proof (cases "d = 2 ^ q")
      case True
      have "fp_round F s m e = Finite s (2 ^ (q - 1)) (e' + 1)"
        using ne False fin True
        by (simp add: fp_round_def Let_def flip: a_def q_def e'_def k_def d_def)
      moreover have "\<bar>real (2 ^ (q - 1)) * 2 powi (e' + 1) - real m * 2 powi e\<bar>
         \<le> real m * 2 powi e / 2 ^ q + 2 powi emin F / 2"
        using err by (simp only: carry [OF True])
      ultimately show ?thesis unfolding q_def by blast
    next
      case nc: False
      have "fp_round F s m e = Finite s d e'"
        using ne False fin nc
        by (simp add: fp_round_def Let_def flip: a_def q_def e'_def k_def d_def)
      with err show ?thesis unfolding q_def by blast
    qed
  qed
qed

subsection \<open>The error of the operations on \<^verbatim>\<open>float\<close>\<close>

text \<open>
  Product, sum, difference and conversion round the exact result once.  Quotient and
  square root round a value that differs from the exact result by less than one unit of a
  significand of 27 bits, which costs one more bit of accuracy.
\<close>

lemma with_sign_abs: "\<bar>real_of_int (with_sign s m)\<bar> = real m"
  by (simp add: with_sign_def)

lemma fp_round32:
  assumes "real m * 2 powi e \<le> 2 ^ 100"
  shows "fp_is_finite (fp_round binary32 s m e) \<and>
         \<bar>fp_real (fp_round binary32 s m e) - real_of_int (with_sign s m) * 2 powi e\<bar>
           \<le> real m * 2 powi e / 2 ^ 24 + 2 powi (- 150)"
proof -
  have "real m * 2 powi e \<le> 2 powi 100" using assms by simp
  from fp_round_err [of binary32 m e 100 s, OF _ _ this]
  obtain n f where r: "fp_round binary32 s m e = Finite s n f"
    and err: "\<bar>real n * 2 powi f - real m * 2 powi e\<bar>
      \<le> real m * 2 powi e / 2 ^ 24 + 2 powi (- 149) / 2"
    by (auto simp: binary32_def)
  have h: "(2::real) powi (- 149) / 2 = 2 powi (- 150)"
    by (simp add: power_int_minus field_simps)
  have "fp_real (Finite s n f) - real_of_int (with_sign s m) * 2 powi e
        = (if s then - 1 else 1) * (real n * 2 powi f - real m * 2 powi e)"
    by (simp add: fp_real_Finite with_sign_def algebra_simps)
  then have "\<bar>fp_real (Finite s n f) - real_of_int (with_sign s m) * 2 powi e\<bar>
        = \<bar>real n * 2 powi f - real m * 2 powi e\<bar>"
    by (simp add: abs_mult)
  then show ?thesis using err by (simp add: r h)
qed

lemma fp_round32_abs:
  assumes "x = real_of_int (with_sign s m) * 2 powi e" "\<bar>x\<bar> \<le> 2 ^ 100"
  shows "fp_is_finite (fp_round binary32 s m e) \<and>
         \<bar>fp_real (fp_round binary32 s m e) - x\<bar> \<le> \<bar>x\<bar> / 2 ^ 24 + 2 powi (- 150)"
proof -
  have "\<bar>x\<bar> = real m * 2 powi e"
    by (simp add: assms(1) abs_mult with_sign_abs)
  then show ?thesis using fp_round32 [of m e s] assms by simp
qed



lemma with_sign_shift:
  "g \<le> e \<Longrightarrow> real_of_int (with_sign s (m * 2 ^ nat (e - g))) * 2 powi g
     = real_of_int (with_sign s m) * 2 powi e"
  using pow2_shift [of g e] by (simp add: with_sign_def mult.assoc)

lemma fadd32:
  assumes "fp_is_finite a" "fp_is_finite b" "\<bar>fp_real a + fp_real b\<bar> \<le> 2 ^ 100"
  shows "fp_is_finite (fadd a b) \<and>
         \<bar>fp_real (fadd a b) - (fp_real a + fp_real b)\<bar>
           \<le> \<bar>fp_real a + fp_real b\<bar> / 2 ^ 24 + 2 powi (- 150)"
proof -
  from assms(1) obtain s m e where a: "a = Finite s m e" by (cases a) auto
  from assms(2) obtain t n f where b: "b = Finite t n f" by (cases b) auto
  define g where "g = min e f"
  define c where "c = with_sign s (m * 2 ^ nat (e - g)) + with_sign t (n * 2 ^ nat (f - g))"
  have "g \<le> e" "g \<le> f" by (simp_all add: g_def)
  then have sum: "fp_real a + fp_real b = real_of_int c * 2 powi g"
    by (simp add: a b fp_real_Finite c_def distrib_right with_sign_shift)
  have res: "fadd a b = (if c = 0 then Finite (s \<and> t) 0 (emin binary32)
                         else fp_round binary32 (c < 0) (nat \<bar>c\<bar>) g)"
    by (simp add: a b Let_def g_def c_def)
  show ?thesis
  proof (cases "c = 0")
    case True
    then show ?thesis using sum
      by (simp add: res fp_real_Finite with_sign_def)
  next
    case False
    have "with_sign (c < 0) (nat \<bar>c\<bar>) = c" by (simp add: with_sign_def)
    then have "fp_real a + fp_real b = real_of_int (with_sign (c < 0) (nat \<bar>c\<bar>)) * 2 powi g"
      using sum by simp
    from fp_round32_abs [OF this assms(3)] show ?thesis using False
      by (simp add: res)
  qed
qed

lemma fp_neg_real: "fp_real (fp_neg x) = - fp_real x"
  by (cases x) (simp_all add: fp_real_Finite with_sign_def, simp_all add: fp_real_def)

lemma fp_neg_finite: "fp_is_finite (fp_neg x) = fp_is_finite x"
  by (cases x) simp_all

lemma fsub32:
  assumes "fp_is_finite a" "fp_is_finite b" "\<bar>fp_real a - fp_real b\<bar> \<le> 2 ^ 100"
  shows "fp_is_finite (fsub a b) \<and>
         \<bar>fp_real (fsub a b) - (fp_real a - fp_real b)\<bar>
           \<le> \<bar>fp_real a - fp_real b\<bar> / 2 ^ 24 + 2 powi (- 150)"
  using fadd32 [of a "fp_neg b"] assms by (simp add: fp_sub_def fp_neg_real fp_neg_finite)








subsection \<open>Normalisation\<close>













subsection \<open>The rotated vector\<close>


















subsection \<open>The claim\<close>




end
